theory Spec2Isabelle
  imports Complex_Main "HOL-Library.AList"
begin

section \<open>Tables\<close>

text \<open>
  A DataFrame is its header and its rows; a row carries its index label (the row number
  \<open>read_csv\<close> gave it) and one cell per column. The numeric type \<open>'n\<close> stands for the
  floating-point values, on which the notebook itself does no arithmetic. \<open>NA\<close> is a
  missing value (NaN), \<open>Lbl\<close> an integer cluster label.

  A column name is a \<open>string\<close>: the bytes of the UTF-8 encoding of the name. A character
  of ASCII is one \<open>char\<close> below 128, any other character a sequence of \<open>char\<close>s that are
  all 128 or more, so that two names are equal when their bytes are.
\<close>

datatype 'n cell = NA | Num 'n | Str string | Lbl nat

record 'n frame =
  columns :: "string list"
  rows :: "(nat \<times> 'n cell list) list"

text \<open>A numpy array of one or of two dimensions (the latter as the list of its rows).\<close>

datatype 'n ndarray = A1 "'n list" | A2 "'n list list"

section \<open>Results and errors\<close>

text \<open>
  The notebook catches no exception: whatever a call raises ends the run. A call that can
  raise returns \<open>error + 'a\<close>, and \<open>bnd\<close> is the sequencing of two statements, the second
  of which is not reached when the first one raises. The first eight errors are classes
  of Python, raised by the interpreter, by pandas or by scikit-learn. The last two are
  the names under which the specification expects the analysis stages to fail; neither
  the notebook nor the libraries define or raise them.
\<close>

datatype error =
    FileNotFoundError
  | ParserError
  | NameError
  | KeyError "string list"
  | ValueError
  | IndexError
  | TypeError
  | AttributeError
  | DataInsufficiencyError
  | DegenerateInputError

fun bnd :: "error + 'a \<Rightarrow> ('a \<Rightarrow> error + 'b) \<Rightarrow> error + 'b" where
  "bnd (Inl e) f = Inl e"
| "bnd (Inr v) f = f v"

section \<open>The pandas operations the notebook uses\<close>

fun notna :: "'n cell \<Rightarrow> bool" where
  "notna NA = False"
| "notna _ = True"

text \<open>The positions of a label in a header (all of them, should the header repeat it).\<close>

definition positions :: "string list \<Rightarrow> string \<Rightarrow> nat list" where
  "positions cols name = filter (\<lambda>i. cols ! i = name) [0..<length cols]"

text \<open>Looking labels up raises \<open>KeyError\<close> with the labels that are not in the header.\<close>

definition get_indexer_for :: "string list \<Rightarrow> string list \<Rightarrow> error + nat list" where
  "get_indexer_for cols names =
     (let missing = filter (\<lambda>n. n \<notin> set cols) names
      in if missing \<noteq> [] then Inl (KeyError missing)
         else Inr (concat (map (positions cols) names)))"

text \<open>\<^verbatim>\<open>df.dropna(subset=...)\<close>: a new table with the rows that have no missing cell
  in the named columns, in their order and under their labels.\<close>

definition dropna :: "string list \<Rightarrow> 'n frame \<Rightarrow> error + 'n frame" where
  "dropna names f =
     bnd (get_indexer_for (columns f) names) (\<lambda>idx.
       Inr (f\<lparr>rows := filter (\<lambda>(l, cs). \<forall>i \<in> set idx. notna (cs ! i)) (rows f)\<rparr>))"

text \<open>\<^verbatim>\<open>df[names]\<close> with a list of labels: a new table of those columns.\<close>

definition getitem_list :: "string list \<Rightarrow> 'n frame \<Rightarrow> error + 'n frame" where
  "getitem_list names f =
     bnd (get_indexer_for (columns f) names) (\<lambda>idx.
       Inr \<lparr>columns = map (\<lambda>i. columns f ! i) idx,
            rows = map (\<lambda>(l, cs). (l, map (\<lambda>i. cs ! i) idx)) (rows f)\<rparr>)"

text \<open>\<^verbatim>\<open>df[name]\<close> with one label: the column, as a table of one column.\<close>

definition getitem :: "string \<Rightarrow> 'n frame \<Rightarrow> error + 'n frame" where
  "getitem name f = getitem_list [name] f"

text \<open>
  \<^verbatim>\<open>df[name] = values\<close> with an array, in the three ways of pandas.

  When the header holds the name \<open>k\<close> times, \<open>k\<close> at least 2, and the array has exactly
  \<open>k\<close> values, the values are dealt one to a column: the \<open>j\<close>-th column of that name is
  filled, in every row, with value \<open>j\<close>, and the number of rows is compared with nothing.

  Otherwise the array must have one value per row (\<open>ValueError\<close> if not), and row \<open>i\<close>
  gets value \<open>i\<close>: in every column of that name if the header holds it, and in a new
  column appended to the table if not.
\<close>

definition setitem :: "string \<Rightarrow> 'n cell list \<Rightarrow> 'n frame \<Rightarrow> error + 'n frame" where
  "setitem name vals f =
     (if 1 < length (positions (columns f) name)
          \<and> length (positions (columns f) name) = length vals then
        Inr (f\<lparr>rows := map (\<lambda>(l, cs).
                             (l, map (\<lambda>((j, cn), c).
                                        if cn = name
                                        then vals ! length (positions (take j (columns f)) name)
                                        else c)
                                     (zip (enumerate 0 (columns f)) cs)))
                          (rows f)\<rparr>)
      else if length vals \<noteq> length (rows f) then Inl ValueError
      else if name \<in> set (columns f) then
        Inr (f\<lparr>rows := map (\<lambda>((l, cs), v).
                             (l, map (\<lambda>(cn, c). if cn = name then v else c) (zip (columns f) cs)))
                          (zip (rows f) vals)\<rparr>)
      else
        Inr \<lparr>columns = columns f @ [name],
             rows = map (\<lambda>((l, cs), v). (l, cs @ [v])) (zip (rows f) vals)\<rparr>)"

text \<open>\<^verbatim>\<open>.head()\<close>: the first five rows. \<^verbatim>\<open>.unique()\<close>: the distinct values in the
  order of their first appearance.\<close>

definition head :: "'n frame \<Rightarrow> 'n frame" where
  "head f = f\<lparr>rows := take 5 (rows f)\<rparr>"

definition unique :: "'a list \<Rightarrow> 'a list" where
  "unique xs = rev (remdups (rev xs))"

text \<open>\<^verbatim>\<open>M[:, j]\<close> on a two-dimensional array.\<close>

definition column :: "'n list list \<Rightarrow> nat \<Rightarrow> error + 'n list" where
  "column M j = (if \<forall>r \<in> set M. j < length r then Inr (map (\<lambda>r. r ! j) M) else Inl IndexError)"

section \<open>Objects and variables\<close>

text \<open>
  Tables are objects: \<^verbatim>\<open>df.columns = ...\<close> and \<^verbatim>\<open>df['cluster'] = ...\<close> change the
  object a variable refers to, while \<^verbatim>\<open>df.dropna(...)\<close> and \<^verbatim>\<open>df[features]\<close> build
  a new one. The memory maps addresses to tables; a variable is an address, and reading
  one that is bound to nothing is a \<open>NameError\<close>.
\<close>

type_synonym addr = nat

record 'n mem =
  objs :: "addr \<Rightarrow> 'n frame option"
  fresh :: addr

definition alloc :: "'n frame \<Rightarrow> 'n mem \<Rightarrow> addr \<times> 'n mem" where
  "alloc f m = (fresh m, m\<lparr>objs := (objs m)(fresh m \<mapsto> f), fresh := Suc (fresh m)\<rparr>)"

definition deref :: "'n mem \<Rightarrow> addr \<Rightarrow> error + 'n frame" where
  "deref m a = (case objs m a of None \<Rightarrow> Inl NameError | Some f \<Rightarrow> Inr f)"

definition store :: "addr \<Rightarrow> 'n frame \<Rightarrow> 'n mem \<Rightarrow> 'n mem" where
  "store a f m = m\<lparr>objs := (objs m)(a \<mapsto> f)\<rparr>"

definition assign :: "'n mem \<Rightarrow> addr \<Rightarrow> string \<Rightarrow> 'n cell list \<Rightarrow> error + 'n mem" where
  "assign m a name vals =
     bnd (deref m a) (\<lambda>f. bnd (setitem name vals f) (\<lambda>f'. Inr (store a f' m)))"

section \<open>The library\<close>

text \<open>
  The statistics are scikit-learn's and the file is read by pandas; none of that code is
  the notebook's. The calls are the fields of a record the notebook is run against, with
  the arguments the notebook passes. A call that draws random numbers also takes the
  state \<open>'g\<close> of everything it may read besides its arguments (the global generator); it
  is handed \<open>amb i\<close>, the state at call site \<open>i\<close>, and \<open>random_state\<close> is \<open>Some seed\<close> where
  the notebook passes one. The call sites are numbered: 0 is the split, 1 the projection,
  \<open>k\<close> (from 2 to 9) the K-Means fit for \<open>k\<close> clusters inside the loop, and 10 the final
  fit. Silhouette scores are values of a linear order \<open>'s\<close>.

  A fitted regression is its two attributes \<open>coef_\<close> and \<open>intercept_\<close>. The array \<open>coef_\<close>
  has one dimension when the target has one (a single column \<open>war\<close>, which
  \<^verbatim>\<open>df['war']\<close> hands over as a Series) and one row per target column when the target
  is a table (\<^verbatim>\<open>df['war']\<close> on a header that holds \<open>war\<close> several times); the
  predictions have the dimensions of the target.

  Nor is the Unicode database the notebook's: it is the interpreter's, and the string
  methods consult it for every name that is not made of ASCII characters alone.
  \<open>unicode_strip\<close> and \<open>unicode_lower\<close> are \<open>str.strip\<close> and \<open>str.lower\<close> on such a name,
  and \<open>unicode_has_upper\<close> tells whether one of its characters is an uppercase letter
  (\<open>str.isupper\<close> of that character).
\<close>

record ('n, 'g, 's) library =
  unicode_strip :: "string \<Rightarrow> string"
  unicode_lower :: "string \<Rightarrow> string"
  unicode_has_upper :: "string \<Rightarrow> bool"
  read_csv :: "string \<Rightarrow> error + 'n frame"
  train_test_split ::
    "'g \<Rightarrow> 'n frame \<Rightarrow> 'n frame \<Rightarrow> rat \<Rightarrow> nat option
       \<Rightarrow> error + ('n frame \<times> 'n frame \<times> 'n frame \<times> 'n frame)"
  lr_fit :: "'n frame \<Rightarrow> 'n frame \<Rightarrow> error + ('n ndarray \<times> 'n list)"
  lr_predict :: "'n ndarray \<times> 'n list \<Rightarrow> 'n frame \<Rightarrow> error + 'n ndarray"
  r2_score :: "'n frame \<Rightarrow> 'n ndarray \<Rightarrow> error + 'n"
  mean_squared_error :: "'n frame \<Rightarrow> 'n ndarray \<Rightarrow> bool \<Rightarrow> error + 'n"
  scaler_fit_transform :: "'n frame \<Rightarrow> error + 'n list list"
  pca_fit_transform :: "'g \<Rightarrow> nat \<Rightarrow> nat option \<Rightarrow> 'n list list \<Rightarrow> error + 'n list list"
  kmeans_fit_predict :: "'g \<Rightarrow> nat \<Rightarrow> nat option \<Rightarrow> 'n list list \<Rightarrow> error + nat list"
  silhouette_score :: "'n list list \<Rightarrow> nat list \<Rightarrow> error + 's"

section \<open>The cells of the notebook\<close>

text \<open>What the cells print or display, line by line; \<open>PrintImportances\<close> is the
  heading over the coefficients.\<close>

datatype 'n out =
    PrintR2 'n
  | PrintRMSE 'n
  | PrintImportances
  | PrintCoef string 'n
  | PrintBestK nat
  | PrintCluster nat
  | Display "'n frame"

subsection \<open>Loader\<close>

text \<open>
  The notebook's second cell rewrites the header of the table it has just read:
  \<^verbatim>\<open>
  df.columns = df.columns.str.strip().str.lower().str.replace(' ', '_')
                 .str.replace('+', 'plus').str.replace('%', 'percent')
  \<close>
  On a name of ASCII characters alone, \<open>str.strip\<close> removes the leading and the trailing
  whitespace, which is the ten characters of \<open>is_space\<close>, and \<open>str.lower\<close> maps the
  twenty-six letters of \<open>is_upper\<close> to their lowercase forms, 32 code points further. On
  any other name the two methods are the interpreter's.
\<close>

definition is_ascii :: "char \<Rightarrow> bool" where
  "is_ascii c \<longleftrightarrow> (of_char c :: nat) < 128"

definition is_space :: "char \<Rightarrow> bool" where
  "is_space c = (let n = (of_char c :: nat) in (9 \<le> n \<and> n \<le> 13) \<or> (28 \<le> n \<and> n \<le> 32))"

definition is_upper :: "char \<Rightarrow> bool" where
  "is_upper c = (let n = (of_char c :: nat) in 65 \<le> n \<and> n \<le> 90)"

definition lower_char :: "char \<Rightarrow> char" where
  "lower_char c = (if is_upper c then char_of (of_char c + (32 :: nat)) else c)"

definition strip :: "('n, 'g, 's) library \<Rightarrow> string \<Rightarrow> string" where
  "strip L s = (if list_all is_ascii s then rev (dropWhile is_space (rev (dropWhile is_space s)))
                else unicode_strip L s)"

definition lower :: "('n, 'g, 's) library \<Rightarrow> string \<Rightarrow> string" where
  "lower L s = (if list_all is_ascii s then map lower_char s else unicode_lower L s)"

text \<open>
  \<open>str.replace(old, new)\<close> for a pattern \<open>old\<close> of one character, which is how the
  notebook calls it (pandas takes a one-character pattern literally, also under its
  older default \<open>regex=True\<close>). The three patterns are ASCII characters, and the byte of
  an ASCII character occurs in a name only as that character.
\<close>

definition replace :: "char \<Rightarrow> string \<Rightarrow> string \<Rightarrow> string" where
  "replace old new s = concat (map (\<lambda>c. if c = old then new else [c]) s)"

definition normalize_name :: "('n, 'g, 's) library \<Rightarrow> string \<Rightarrow> string" where
  "normalize_name L s =
     replace (CHR ''%'') ''percent''
       (replace (CHR ''+'') ''plus''
         (replace (CHR '' '') ''_''
           (lower L (strip L s))))"

definition loader :: "('n, 'g, 's) library \<Rightarrow> 'n mem \<Rightarrow> error + (addr \<times> 'n mem)" where
  "loader L m =
     bnd (read_csv L ''WAR Stats.csv'') (\<lambda>f.
       let (df, m1) = alloc f m
       in Inr (df, store df (f\<lparr>columns := map (normalize_name L) (columns f)\<rparr>) m1))"

subsection \<open>Feature Preparer\<close>

definition features :: "string list" where
  "features =
     [''on_base_percent'', ''slg_percent'', ''isolated_power'',
      ''k_percent'', ''bb_percent'', ''exit_velocity_avg'',
      ''sprint_speed'', ''wrcplus'', ''f_fielding'', ''spd'']"

text \<open>The cell rebinds \<open>df\<close> to the filtered table and binds \<open>X\<close> and \<open>y\<close>; the result is
  the three addresses, in that order, and the memory.\<close>

definition feature_preparer :: "'n mem \<Rightarrow> addr \<Rightarrow> error + (addr \<times> addr \<times> addr \<times> 'n mem)" where
  "feature_preparer m df0 =
     bnd (deref m df0) (\<lambda>f0.
     bnd (dropna (features @ [''war'']) f0) (\<lambda>f.
       let (df, m1) = alloc f m in
     bnd (deref m1 df) (\<lambda>f1.
     bnd (getitem_list features f1) (\<lambda>X.
       let (Xa, m2) = alloc X m1 in
     bnd (deref m2 df) (\<lambda>f2.
     bnd (getitem ''war'' f2) (\<lambda>y.
       let (ya, m3) = alloc y m2 in
       Inr (df, Xa, ya, m3)))))))"

subsection \<open>Regressor\<close>

record 'n regression =
  X_train :: "'n frame"
  X_test :: "'n frame"
  y_train :: "'n frame"
  y_test :: "'n frame"
  coef :: "'n ndarray"
  intercept :: "'n list"
  y_pred :: "'n ndarray"
  reg_printed :: "'n out list"

text \<open>
  The loop \<^verbatim>\<open>for col, coef in zip(X.columns, lr.coef_): print(f"{col}: {coef:.3f}")\<close>.
  Iterating an array of one dimension yields its numbers, one line each. Iterating an
  array of two dimensions yields its rows, and formatting a row with \<open>.3f\<close> raises
  \<open>TypeError\<close> at the first pair.
\<close>

definition print_coefs :: "string list \<Rightarrow> 'n ndarray \<Rightarrow> error + 'n out list" where
  "print_coefs cols cf =
     (case cf of
        A1 cs \<Rightarrow> Inr (map (\<lambda>(col, c). PrintCoef col c) (zip cols cs))
      | A2 rs \<Rightarrow> if zip cols rs = [] then Inr [] else Inl TypeError)"

definition regressor ::
  "('n, 'g, 's) library \<Rightarrow> (nat \<Rightarrow> 'g) \<Rightarrow> 'n mem \<Rightarrow> addr \<Rightarrow> addr \<Rightarrow> error + 'n regression" where
  "regressor L amb m Xa ya =
     bnd (deref m Xa) (\<lambda>X.
     bnd (deref m ya) (\<lambda>y.
     bnd (train_test_split L (amb 0) X y (2 / 10) (Some 42)) (\<lambda>(Xtr, Xte, ytr, yte).
     bnd (lr_fit L Xtr ytr) (\<lambda>(cf, ic).
     bnd (lr_predict L (cf, ic) Xte) (\<lambda>yp.
     bnd (r2_score L yte yp) (\<lambda>r2.
     bnd (mean_squared_error L yte yp False) (\<lambda>rmse.
     bnd (print_coefs (columns X) cf) (\<lambda>lines.
       Inr \<lparr>X_train = Xtr, X_test = Xte, y_train = ytr, y_test = yte,
            coef = cf, intercept = ic, y_pred = yp,
            reg_printed = PrintR2 r2 # PrintRMSE rmse # PrintImportances # lines\<rparr>))))))))"

subsection \<open>Clusterer\<close>

text \<open>The loop \<^verbatim>\<open>for k in range(2, 10)\<close> over the candidates still to visit; \<open>scores\<close> is
  the dictionary, in insertion order.\<close>

fun silhouette_search ::
  "('n, 'g, 's) library \<Rightarrow> (nat \<Rightarrow> 'g) \<Rightarrow> 'n list list \<Rightarrow> nat list \<Rightarrow> (nat \<times> 's) list
     \<Rightarrow> error + (nat \<times> 's) list" where
  "silhouette_search L amb Xs [] scores = Inr scores"
| "silhouette_search L amb Xs (k # ks) scores =
     bnd (kmeans_fit_predict L (amb k) k (Some 42) Xs) (\<lambda>labels.
     bnd (silhouette_score L Xs labels) (\<lambda>s.
       silhouette_search L amb Xs ks (AList.update k s scores)))"

text \<open>\<^verbatim>\<open>max(scores, key=scores.get)\<close>: the keys are visited in insertion order and the
  one held is replaced only by a key whose value is strictly greater.\<close>

fun max_key :: "('k \<times> 's::linorder) list \<Rightarrow> error + 'k" where
  "max_key [] = Inl ValueError"
| "max_key ((k, s) # kvs) =
     Inr (fst (foldl (\<lambda>(bk, bs) (k', s'). if s' > bs then (k', s') else (bk, bs)) (k, s) kvs))"

record ('n, 's) clustering =
  X_scaled :: "'n list list"
  X_pca :: "'n list list"
  scores :: "(nat \<times> 's) list"
  best_k :: nat
  labels :: "nat list"
  clu_printed :: "'n out list"
  clu_mem :: "'n mem"

definition clusterer ::
  "('n, 'g, 's::linorder) library \<Rightarrow> (nat \<Rightarrow> 'g) \<Rightarrow> 'n mem \<Rightarrow> addr \<Rightarrow> addr
     \<Rightarrow> error + ('n, 's) clustering" where
  "clusterer L amb m df Xa =
     bnd (deref m Xa) (\<lambda>X.
     bnd (scaler_fit_transform L X) (\<lambda>Xs.
     bnd (pca_fit_transform L (amb 1) 2 None Xs) (\<lambda>Xp.
     bnd (silhouette_search L amb Xs [2..<10] []) (\<lambda>sc.
     bnd (max_key sc) (\<lambda>bk.
     bnd (kmeans_fit_predict L (amb 10) bk (Some 42) Xs) (\<lambda>lb.
     bnd (assign m df ''cluster'' (map Lbl lb)) (\<lambda>m1.
     bnd (column Xp 0) (\<lambda>c0.
     bnd (assign m1 df ''PC1'' (map Num c0)) (\<lambda>m2.
     bnd (column Xp 1) (\<lambda>c1.
     bnd (assign m2 df ''PC2'' (map Num c1)) (\<lambda>m3.
       Inr \<lparr>X_scaled = Xs, X_pca = Xp, scores = sc, best_k = bk, labels = lb,
            clu_printed = [PrintBestK bk], clu_mem = m3\<rparr>)))))))))))"

subsection \<open>Reporter\<close>

text \<open>
  The scatter plot draws the table and returns nothing; the last cell prints, for each
  cluster, a heading and the head of the member rows. The column \<open>cluster\<close> holds the
  integer labels the Clusterer has just stored; a table in which it holds anything else
  is rejected here.
\<close>

definition report_columns :: "string list" where
  "report_columns =
     [''first'', ''last'', ''on_base_percent'', ''slg_percent'', ''wrcplus'', ''war'']"

fun label_of :: "'n cell \<Rightarrow> nat option" where
  "label_of (Lbl c) = Some c"
| "label_of _ = None"

fun report_loop :: "'n frame \<Rightarrow> nat \<Rightarrow> nat list \<Rightarrow> error + 'n out list" where
  "report_loop f p [] = Inr []"
| "report_loop f p (c # cs) =
     bnd (getitem_list report_columns
            (f\<lparr>rows := filter (\<lambda>(l, r). r ! p = Lbl c) (rows f)\<rparr>)) (\<lambda>members.
     bnd (report_loop f p cs) (\<lambda>rest.
       Inr (PrintCluster c # Display (head members) # rest)))"

definition reporter :: "'n mem \<Rightarrow> addr \<Rightarrow> error + 'n out list" where
  "reporter m df =
     bnd (deref m df) (\<lambda>f.
       case positions (columns f) ''cluster'' of
         [] \<Rightarrow> Inl (KeyError [''cluster''])
       | [p] \<Rightarrow> (case those (map (\<lambda>(l, r). label_of (r ! p)) (rows f)) of
                   None \<Rightarrow> Inl TypeError
                 | Some ids \<Rightarrow> report_loop f p (sort (unique ids)))
       | _ \<Rightarrow> Inl AttributeError)"

subsection \<open>Running all cells\<close>

record ('n, 's) run =
  run_mem :: "'n mem"
  run_df :: addr
  run_X :: addr
  run_y :: addr
  run_regression :: "'n regression"
  run_clustering :: "('n, 's) clustering"
  run_report :: "'n out list"

definition run_all ::
  "('n, 'g, 's::linorder) library \<Rightarrow> (nat \<Rightarrow> 'g) \<Rightarrow> 'n mem \<Rightarrow> error + ('n, 's) run" where
  "run_all L amb m0 =
     bnd (loader L m0) (\<lambda>(df0, m1).
     bnd (feature_preparer m1 df0) (\<lambda>(df, Xa, ya, m2).
     bnd (regressor L amb m2 Xa ya) (\<lambda>reg.
     bnd (clusterer L amb m2 df Xa) (\<lambda>clu.
     bnd (reporter (clu_mem clu) df) (\<lambda>rep.
       Inr \<lparr>run_mem = clu_mem clu, run_df = df, run_X = Xa, run_y = ya,
            run_regression = reg, run_clustering = clu, run_report = rep\<rparr>)))))"

section \<open>What the properties are stated with\<close>


text \<open>A row is complete when it has no missing cell in any column named as one of the
  ten features or as the target.\<close>

definition complete :: "string list \<Rightarrow> 'n cell list \<Rightarrow> bool" where
  "complete cols cs =
     (\<forall>name \<in> set (features @ [''war'']). \<forall>i \<in> set [0..<length cols].
        cols ! i = name \<longrightarrow> notna (cs ! i))"

text \<open>A table is rectangular when every row has one cell per column.\<close>

definition rectangular :: "'n frame \<Rightarrow> bool" where
  "rectangular f \<longleftrightarrow> (\<forall>r \<in> set (rows f). length (snd r) = length (columns f))"

text \<open>
  What \<^verbatim>\<open>df[name] = vals\<close> leaves in row \<open>i\<close> of column \<open>j\<close>, a column of that name, of a
  table whose header is \<open>cols\<close> afterwards: value \<open>i\<close>, unless the header holds the name
  as many times as there are values, and more than once; then it is the value whose
  number is that of the column among the columns of that name.
\<close>

definition stored :: "string list \<Rightarrow> string \<Rightarrow> 'a list \<Rightarrow> nat \<Rightarrow> nat \<Rightarrow> 'a" where
  "stored cols name vals i j =
     (if 1 < length (positions cols name) \<and> length (positions cols name) = length vals
      then vals ! length (positions (take j cols) name)
      else vals ! i)"

text \<open>Two feature columns that agree in every row: features that are perfectly
  collinear, so that the feature matrix is rank-deficient.\<close>

definition collinear :: "'n frame \<Rightarrow> bool" where
  "collinear X \<longleftrightarrow>
     (\<exists>i \<in> set [0..<length (columns X)]. \<exists>j \<in> set [0..<length (columns X)].
        i \<noteq> j \<and> (\<forall>r \<in> set (rows X). snd r ! i = snd r ! j))"

text \<open>A column of a table is constant when every row has in it what the first row has.
  Column \<open>j\<close> of a matrix, its mean and its variance over all of its rows (the variance
  of the population, which is the one the scaler divides by).\<close>

definition is_constant :: "'n frame \<Rightarrow> nat \<Rightarrow> bool" where
  "is_constant X j \<longleftrightarrow> (\<forall>r \<in> set (rows X). snd r ! j = snd (hd (rows X)) ! j)"

definition col :: "'a list list \<Rightarrow> nat \<Rightarrow> 'a list" where
  "col M j = map (\<lambda>r. r ! j) M"



subsection \<open>What is assumed of the library\<close>

text \<open>What passing \<open>random_state\<close> buys: a seeded split and a seeded K-Means return the
  same result whatever the ambient state is.\<close>

definition seeded :: "('n, 'g, 's) library \<Rightarrow> bool" where
  "seeded L \<longleftrightarrow>
     (\<forall>g g' X y ts s.
        train_test_split L g X y ts (Some s) = train_test_split L g' X y ts (Some s))
   \<and> (\<forall>g g' k s M.
        kmeans_fit_predict L g k (Some s) M = kmeans_fit_predict L g' k (Some s) M)"



text \<open>
  What the library does with too few rows: the split at a test size of 0.2 refuses
  fewer than two rows, the scaler refuses an empty matrix and returns one row per row,
  and the silhouette score refuses fewer than three rows (it wants at least two
  clusters and fewer clusters than rows). All of them raise \<open>ValueError\<close>, and so do
  the scaler, the projection and K-Means if they refuse a matrix of fewer than three
  rows.
\<close>

definition rejects_too_few_rows :: "('n, 'g, 's) library \<Rightarrow> bool" where
  "rejects_too_few_rows L \<longleftrightarrow>
     (\<forall>g X y rs. length (rows X) < 2 \<longrightarrow> train_test_split L g X y (2 / 10) rs = Inl ValueError)
   \<and> (\<forall>X. rows X = [] \<longrightarrow> scaler_fit_transform L X = Inl ValueError)
   \<and> (\<forall>X M. scaler_fit_transform L X = Inr M \<longrightarrow> length M = length (rows X))
   \<and> (\<forall>M l. length M < 3 \<longrightarrow> silhouette_score L M l = Inl ValueError)
   \<and> (\<forall>X e. length (rows X) < 3 \<longrightarrow> scaler_fit_transform L X = Inl e \<longrightarrow> e = ValueError)
   \<and> (\<forall>g nc rs M e. length M < 3 \<longrightarrow> pca_fit_transform L g nc rs M = Inl e \<longrightarrow> e = ValueError)
   \<and> (\<forall>g k rs M e. length M < 3 \<longrightarrow> kmeans_fit_predict L g k rs M = Inl e \<longrightarrow> e = ValueError)"

section \<open>A library to run the notebook against\<close>

text \<open>
  Stand-ins for the library calls, small enough to compute with: the split cuts the rows
  at 80 percent (from the front or from the back, by the parity of the seed); the fit
  returns zero coefficients, in one dimension for a target of one column and in two
  otherwise; the scaler turns a constant column into zeros and any other column into
  1, -1, 1, -1, ..., for which it wants an even number of rows; the projection keeps
  two columns and shifts them by the seed; K-Means deals the rows round-robin starting
  at the seed; and the score of a labelling is its number of clusters, capped at four.
  Like the library, they refuse inputs with too few rows, and a call without a seed
  draws on the ambient state. On a name that is not ASCII alone, the string methods
  treat the ASCII characters as they do in an ASCII name and leave the others, and the
  one uppercase letter known outside ASCII is U+2102, the double-struck capital C, which
  has no lowercase form; its encoding is the three bytes E2 84 82.
\<close>

fun holds_U2102 :: "string \<Rightarrow> bool" where
  "holds_U2102 (a # b # c # s) =
     ((a = CHR 0xE2 \<and> b = CHR 0x84 \<and> c = CHR 0x82) \<or> holds_U2102 (b # c # s))"
| "holds_U2102 _ = False"

definition toy_seed :: "nat \<Rightarrow> nat option \<Rightarrow> nat" where
  "toy_seed g rs = (case rs of Some s \<Rightarrow> s | None \<Rightarrow> g)"

definition toy_split ::
  "nat \<Rightarrow> rat frame \<Rightarrow> rat frame \<Rightarrow> rat \<Rightarrow> nat option
     \<Rightarrow> error + (rat frame \<times> rat frame \<times> rat frame \<times> rat frame)" where
  "toy_split g X y ts rs =
     (let n = length (rows X);
          n_test = nat \<lceil>ts * of_nat n\<rceil>;
          n_train = n - n_test
      in if n_train = 0 \<or> length (rows y) \<noteq> n then Inl ValueError
         else if even (toy_seed g rs) then
           Inr (X\<lparr>rows := take n_train (rows X)\<rparr>, X\<lparr>rows := drop n_train (rows X)\<rparr>,
                y\<lparr>rows := take n_train (rows y)\<rparr>, y\<lparr>rows := drop n_train (rows y)\<rparr>)
         else
           Inr (X\<lparr>rows := drop n_test (rows X)\<rparr>, X\<lparr>rows := take n_test (rows X)\<rparr>,
                y\<lparr>rows := drop n_test (rows y)\<rparr>, y\<lparr>rows := take n_test (rows y)\<rparr>))"

definition toy_scaler :: "rat frame \<Rightarrow> error + rat list list" where
  "toy_scaler X =
     (if rows X = [] \<or> odd (length (rows X)) then Inl ValueError
      else Inr (map (\<lambda>i. map (\<lambda>j. if is_constant X j then 0 else if even i then 1 else - 1)
                             [0..<length (columns X)])
                    [0..<length (rows X)]))"

text \<open>The file: twelve rows, of which rows 3 and 7 have a missing cell. One name of the
  header begins with a tab and ends with two spaces, another begins with a space.\<close>

definition toy_csv :: "rat frame" where
  "toy_csv =
     \<lparr>columns =
        [''First'', ''Last'', ''On Base %'', ''SLG %'', ''Isolated Power'', ''K %'',
         CHR 0x09 # ''BB %  '', ''Exit Velocity Avg'', '' Sprint Speed'', ''wRC+'',
         ''F Fielding'', ''Spd'', ''WAR''],
      rows =
        map (\<lambda>i. (i, Str ''p'' # Str ''q''
                       # map (\<lambda>j. if (i = 3 \<and> j = 2) \<or> (i = 7 \<and> j = 10) then NA
                                   else Num (of_nat (i * j))) [0..<11]))
            [0..<12]\<rparr>"

definition toy_library :: "(rat, nat, int) library" where
  "toy_library =
     \<lparr>unicode_strip = (\<lambda>s. rev (dropWhile is_space (rev (dropWhile is_space s)))),
      unicode_lower = map lower_char,
      unicode_has_upper = (\<lambda>s. list_ex is_upper s \<or> holds_U2102 s),
      read_csv = (\<lambda>path. if path = ''WAR Stats.csv'' then Inr toy_csv else Inl FileNotFoundError),
      train_test_split = toy_split,
      lr_fit =
        (\<lambda>X y. if rows X = [] then Inl ValueError
               else Inr (if length (columns y) = 1 then A1 (map (\<lambda>_. 0) (columns X))
                         else A2 (map (\<lambda>_. map (\<lambda>_. 0) (columns X)) (columns y)),
                         map (\<lambda>_. 0) (columns y))),
      lr_predict =
        (\<lambda>(cf, ic) X. Inr (case cf of A1 cs \<Rightarrow> A1 (map (\<lambda>_. 0) (rows X))
                                     | A2 rs \<Rightarrow> A2 (map (\<lambda>_. map (\<lambda>_. 0) rs) (rows X)))),
      r2_score =
        (\<lambda>y yp. if length (rows y) \<noteq> (case yp of A1 v \<Rightarrow> length v | A2 M \<Rightarrow> length M)
                then Inl ValueError else Inr 0),
      mean_squared_error =
        (\<lambda>y yp squared.
           if length (rows y) \<noteq> (case yp of A1 v \<Rightarrow> length v | A2 M \<Rightarrow> length M)
           then Inl ValueError else Inr 0),
      scaler_fit_transform = toy_scaler,
      pca_fit_transform =
        (\<lambda>g nc rs M. if length M < nc \<or> (\<exists>r \<in> set M. length r < nc) then Inl ValueError
                     else Inr (map (\<lambda>r. map (\<lambda>v. v + of_nat (toy_seed g rs)) (take nc r)) M)),
      kmeans_fit_predict =
        (\<lambda>g k rs M. if k = 0 \<or> length M < k then Inl ValueError
                    else Inr (map (\<lambda>i. (i + toy_seed g rs) mod k) [0..<length M])),
      silhouette_score =
        (\<lambda>M l. let c = length (remdups l)
               in if c < 2 \<or> length M \<le> c \<or> length l \<noteq> length M then Inl ValueError
                  else Inr (int (min c 4)))\<rparr>"

subsection \<open>Tables and memories\<close>

text \<open>The memory of a kernel that has run nothing yet.\<close>

definition empty_mem :: "'n mem" where
  "empty_mem = \<lparr>objs = Map.empty, fresh = 0\<rparr>"

text \<open>The table of the file once loaded, and the memory after the Loader and after the
  Feature Preparer: rows 3 and 7 are dropped.\<close>

definition toy_table :: "rat frame" where
  "toy_table = toy_csv\<lparr>columns := map (normalize_name toy_library) (columns toy_csv)\<rparr>"

definition toy_loaded :: "rat mem" where
  "toy_loaded = \<lparr>objs = [0 \<mapsto> toy_table], fresh = 1\<rparr>"

definition toy_kept :: "rat frame" where
  "toy_kept = toy_table\<lparr>rows := filter (\<lambda>(l, cs). l \<noteq> 3 \<and> l \<noteq> 7) (rows toy_table)\<rparr>"

definition toy_X :: "rat frame" where
  "toy_X = \<lparr>columns = features, rows = map (\<lambda>(l, cs). (l, take 10 (drop 2 cs))) (rows toy_kept)\<rparr>"

definition toy_y :: "rat frame" where
  "toy_y = \<lparr>columns = [''war''], rows = map (\<lambda>(l, cs). (l, drop 12 cs)) (rows toy_kept)\<rparr>"

definition toy_prepared :: "rat mem" where
  "toy_prepared = \<lparr>objs = [0 \<mapsto> toy_table, 1 \<mapsto> toy_kept, 2 \<mapsto> toy_X, 3 \<mapsto> toy_y], fresh = 4\<rparr>"

text \<open>The same with one more column, which the file names \<open>Cluster\<close>.\<close>

definition toy_table_c :: "rat frame" where
  "toy_table_c =
     \<lparr>columns = columns toy_table @ [''cluster''],
      rows = map (\<lambda>(l, cs). (l, cs @ [Num 7])) (rows toy_table)\<rparr>"

definition toy_kept_c :: "rat frame" where
  "toy_kept_c = toy_table_c\<lparr>rows := filter (\<lambda>(l, cs). l \<noteq> 3 \<and> l \<noteq> 7) (rows toy_table_c)\<rparr>"

definition toy_prepared_c :: "rat mem" where
  "toy_prepared_c =
     \<lparr>objs = [0 \<mapsto> toy_table_c, 1 \<mapsto> toy_kept_c, 2 \<mapsto> toy_X, 3 \<mapsto> toy_y], fresh = 4\<rparr>"

text \<open>A small clustered table, and what the Reporter prints for it.\<close>

definition toy_clustered :: "rat mem" where
  "toy_clustered =
     \<lparr>objs = [0 \<mapsto>
        \<lparr>columns = [''first'', ''last'', ''on_base_percent'', ''slg_percent'', ''wrcplus'',
                     ''war'', ''cluster''],
         rows = [(0, [Str ''a'', Str ''z'', Num 1, Num 2, Num 3, Num 4, Lbl 1]),
                 (1, [Str ''b'', Str ''y'', Num 5, Num 6, Num 7, Num 8, Lbl 0]),
                 (2, [Str ''c'', Str ''x'', Num 1, Num 2, Num 3, Num 4, Lbl 0]),
                 (4, [Str ''d'', Str ''w'', Num 5, Num 6, Num 7, Num 8, Lbl 0]),
                 (5, [Str ''e'', Str ''v'', Num 1, Num 2, Num 3, Num 4, Lbl 0]),
                 (6, [Str ''f'', Str ''u'', Num 5, Num 6, Num 7, Num 8, Lbl 0]),
                 (8, [Str ''g'', Str ''t'', Num 1, Num 2, Num 3, Num 4, Lbl 0])]\<rparr>],
      fresh = 1\<rparr>"

definition toy_report :: "rat out list" where
  "toy_report =
     [PrintCluster 0,
      Display \<lparr>columns = report_columns,
               rows = [(1, [Str ''b'', Str ''y'', Num 5, Num 6, Num 7, Num 8]),
                       (2, [Str ''c'', Str ''x'', Num 1, Num 2, Num 3, Num 4]),
                       (4, [Str ''d'', Str ''w'', Num 5, Num 6, Num 7, Num 8]),
                       (5, [Str ''e'', Str ''v'', Num 1, Num 2, Num 3, Num 4]),
                       (6, [Str ''f'', Str ''u'', Num 5, Num 6, Num 7, Num 8])]\<rparr>,
      PrintCluster 1,
      Display \<lparr>columns = report_columns,
               rows = [(0, [Str ''a'', Str ''z'', Num 1, Num 2, Num 3, Num 4])]\<rparr>]"

text \<open>Five rows whose ten features are all the same number, and the first of them
  alone.\<close>

definition toy_flat_X :: "rat frame" where
  "toy_flat_X = \<lparr>columns = features,
                 rows = map (\<lambda>i. (i, replicate 10 (Num (of_nat i)))) [0..<5]\<rparr>"

definition toy_flat_y :: "rat frame" where
  "toy_flat_y = \<lparr>columns = [''war''], rows = map (\<lambda>i. (i, [Num (of_nat i)])) [0..<5]\<rparr>"

definition toy_flat :: "rat mem" where
  "toy_flat = \<lparr>objs = [0 \<mapsto> toy_flat_X, 1 \<mapsto> toy_flat_y], fresh = 2\<rparr>"

definition toy_one :: "rat mem" where
  "toy_one = \<lparr>objs = [0 \<mapsto> toy_flat_X\<lparr>rows := take 1 (rows toy_flat_X)\<rparr>,
                       1 \<mapsto> toy_flat_y\<lparr>rows := take 1 (rows toy_flat_y)\<rparr>],
              fresh = 2\<rparr>"

text \<open>The five rows with a target of two columns, both named \<open>war\<close>.\<close>

definition toy_two_targets :: "rat mem" where
  "toy_two_targets =
     \<lparr>objs = [0 \<mapsto> toy_flat_X,
              1 \<mapsto> \<lparr>columns = [''war'', ''war''],
                     rows = map (\<lambda>i. (i, [Num (of_nat i), Num (of_nat i)])) [0..<5]\<rparr>],
      fresh = 2\<rparr>"






section \<open>Properties\<close>

lemma bnd_Inr_iff: "bnd x f = Inr r \<longleftrightarrow> (\<exists>v. x = Inr v \<and> f v = Inr r)"
  by (cases x) auto

lemma bnd_Inl_iff: "bnd x f = Inl e \<longleftrightarrow> x = Inl e \<or> (\<exists>v. x = Inr v \<and> f v = Inl e)"
  by (cases x) auto

lemma char_of_eq_iff: "char_of (n :: nat) = c \<longleftrightarrow> n mod 256 = of_char c"
proof -
  have "char_of n = c \<longleftrightarrow> char_of n = char_of (of_char c :: nat)"
    by simp
  also have "\<dots> \<longleftrightarrow> n mod 256 = of_char c"
    by (simp only: char_of_quasi_inj of_char_mod_256)
  finally show ?thesis .
qed

lemma positions_Nil: "positions [] name = []"
  by (simp add: positions_def)

lemma positions_Cons:
  "positions (c # cs) name = (if c = name then [0] else []) @ map Suc (positions cs name)"
proof -
  have "[0..<length (c # cs)] = 0 # map Suc [0..<length cs]"
    by (simp add: upt_conv_Cons map_Suc_upt del: upt_Suc)
  then show ?thesis
    by (simp add: positions_def filter_map comp_def)
qed








subsection \<open>The Loader\<close>


lemma toy_table_columns:
  "columns toy_table =
     [''first'', ''last'', ''on_base_percent'', ''slg_percent'', ''isolated_power'',
      ''k_percent'', ''bb_percent'', ''exit_velocity_avg'', ''sprint_speed'', ''wrcplus'',
      ''f_fielding'', ''spd'', ''war'']"
  by (simp add: toy_table_def toy_csv_def normalize_name_def replace_def lower_def strip_def
      is_ascii_def is_space_def lower_char_def is_upper_def char_of_eq_iff)

lemma toy_load: "loader toy_library empty_mem = Inr (0, toy_loaded)"
  by (simp add: loader_def toy_library_def empty_mem_def alloc_def store_def toy_loaded_def
      toy_table_def normalize_name_def lower_def strip_def)

lemma toy_loaded_table: "objs toy_loaded 0 = Some toy_table"
  by (simp add: toy_loaded_def)



subsection \<open>The Feature Preparer\<close>

lemma set_positions: "set (positions cols name) = {i. i < length cols \<and> cols ! i = name}"
  by (auto simp: positions_def)

lemma get_indexer_for_ok:
  "set names \<subseteq> set cols \<Longrightarrow>
     get_indexer_for cols names = Inr (concat (map (positions cols) names))"
  by (auto simp: get_indexer_for_def Let_def filter_empty_conv)

lemma get_indexer_for_Inr:
  "get_indexer_for cols names = Inr idx \<Longrightarrow>
     set names \<subseteq> set cols \<and> idx = concat (map (positions cols) names)"
  by (auto simp: get_indexer_for_def Let_def filter_empty_conv split: if_splits)

lemma set_indexer:
  "set (concat (map (positions cols) names)) = {i. i < length cols \<and> cols ! i \<in> set names}"
  by (auto simp: set_positions)

lemma complete_iff:
  "complete cols cs \<longleftrightarrow>
     (\<forall>i \<in> set (concat (map (positions cols) (features @ [''war'']))). notna (cs ! i))"
  unfolding complete_def set_indexer by auto

lemma feature_preparer_result:
  assumes df0: "objs m df0 = Some f0"
    and cols: "set (features @ [''war'']) \<subseteq> set (columns f0)"
  shows "\<exists>df Xa ya m' f X y.
           feature_preparer m df0 = Inr (df, Xa, ya, m')
         \<and> objs m' df = Some f \<and> objs m' Xa = Some X \<and> objs m' ya = Some y
         \<and> columns f = columns f0
         \<and> rows f = filter (\<lambda>(l, cs). complete (columns f0) cs) (rows f0)
         \<and> length (rows X) = length (filter (\<lambda>(l, cs). complete (columns f0) cs) (rows f0))
         \<and> (\<forall>(l, cs) \<in> set (rows X). \<forall>c \<in> set cs. notna c)
         \<and> (\<forall>(l, cs) \<in> set (rows y). \<forall>c \<in> set cs. notna c)
         \<and> rows X = map (\<lambda>(l, cs). (l, map (\<lambda>i. cs ! i)
                                         (concat (map (positions (columns f0)) features))))
                         (rows f)
         \<and> rows y = map (\<lambda>(l, cs). (l, map (\<lambda>i. cs ! i) (positions (columns f0) ''war'')))
                         (rows f)"
proof -
  let ?all = "concat (map (positions (columns f0)) (features @ [''war'']))"
  let ?fi = "concat (map (positions (columns f0)) features)"
  let ?wi = "positions (columns f0) ''war''"
  let ?f = "f0\<lparr>rows := filter (\<lambda>(l, cs). complete (columns f0) cs) (rows f0)\<rparr>"
  let ?X = "\<lparr>columns = map (\<lambda>i. columns f0 ! i) ?fi,
             rows = map (\<lambda>(l, cs). (l, map (\<lambda>i. cs ! i) ?fi)) (rows ?f)\<rparr>"
  let ?y = "\<lparr>columns = map (\<lambda>i. columns f0 ! i) ?wi,
             rows = map (\<lambda>(l, cs). (l, map (\<lambda>i. cs ! i) ?wi)) (rows ?f)\<rparr>"
  let ?m1 = "snd (alloc ?f m)"
  let ?m2 = "snd (alloc ?X ?m1)"
  let ?m3 = "snd (alloc ?y ?m2)"
  from cols have fcols: "set features \<subseteq> set (columns f0)" and wcol: "set [''war''] \<subseteq> set (columns f0)"
    by auto
  have drop: "dropna (features @ [''war'']) f0 = Inr ?f"
    by (simp add: dropna_def get_indexer_for_ok [OF cols] complete_iff del: map_append)
  have gX: "getitem_list features ?f = Inr ?X"
    using get_indexer_for_ok [OF fcols] by (simp add: getitem_list_def)
  have gy: "getitem ''war'' ?f = Inr ?y"
    using get_indexer_for_ok [OF wcol] by (simp add: getitem_def getitem_list_def)
  have d1: "deref ?m1 (fresh m) = Inr ?f"
    by (simp add: deref_def alloc_def)
  have d2: "deref ?m2 (fresh m) = Inr ?f"
    by (simp add: deref_def alloc_def)
  have run: "feature_preparer m df0 = Inr (fresh m, Suc (fresh m), Suc (Suc (fresh m)), ?m3)"
    unfolding feature_preparer_def
    using df0 drop gX gy d1 d2
    by (simp add: deref_def alloc_def)
  have o1: "objs ?m3 (fresh m) = Some ?f" and o2: "objs ?m3 (Suc (fresh m)) = Some ?X"
    and o3: "objs ?m3 (Suc (Suc (fresh m))) = Some ?y"
    by (simp_all add: alloc_def)
  have keep: "\<forall>i \<in> set ?all. notna (cs ! i)" if "(l, cs) \<in> set (rows ?f)" for l cs
    using that by (auto simp: complete_iff simp del: map_append)
  have nX: "\<forall>(l, cs) \<in> set (rows ?X). \<forall>c \<in> set cs. notna c"
    using keep by (fastforce simp del: map_append simp: set_indexer)
  have ny: "\<forall>(l, cs) \<in> set (rows ?y). \<forall>c \<in> set cs. notna c"
    using keep by (fastforce simp del: map_append simp: set_indexer set_positions)
  show ?thesis
  proof (intro exI conjI)
    show "feature_preparer m df0 = Inr (fresh m, Suc (fresh m), Suc (Suc (fresh m)), ?m3)"
      by (rule run)
    show "objs ?m3 (fresh m) = Some ?f" by (rule o1)
    show "objs ?m3 (Suc (fresh m)) = Some ?X" by (rule o2)
    show "objs ?m3 (Suc (Suc (fresh m))) = Some ?y" by (rule o3)
    show "columns ?f = columns f0" by simp
    show "rows ?f = filter (\<lambda>(l, cs). complete (columns f0) cs) (rows f0)" by simp
    show "length (rows ?X) = length (filter (\<lambda>(l, cs). complete (columns f0) cs) (rows f0))"
      by simp
    show "\<forall>(l, cs) \<in> set (rows ?X). \<forall>c \<in> set cs. notna c" by (rule nX)
    show "\<forall>(l, cs) \<in> set (rows ?y). \<forall>c \<in> set cs. notna c" by (rule ny)
    show "rows ?X = map (\<lambda>(l, cs). (l, map (\<lambda>i. cs ! i) ?fi)) (rows ?f)" by simp
    show "rows ?y = map (\<lambda>(l, cs). (l, map (\<lambda>i. cs ! i) ?wi)) (rows ?f)" by simp
  qed
qed

text \<open>
  Claim C2. When the table has the ten feature columns and the target column, the
  Feature Preparer rebinds \<open>df\<close> to the complete rows of the table, in their order and
  under their labels, and binds \<open>X\<close> and \<open>y\<close> to the feature cells and the target cell
  of exactly these rows, row for row: the row count of \<open>X\<close> is the number of complete
  input rows, and no cell of \<open>X\<close> or \<open>y\<close> is missing.
\<close>

theorem feature_preparer_drops_incomplete_rows:
  assumes df0: "objs m df0 = Some f0"
    and cols: "set (features @ [''war'']) \<subseteq> set (columns f0)"
  shows "\<exists>df Xa ya m' f X y.
           feature_preparer m df0 = Inr (df, Xa, ya, m')
         \<and> objs m' df = Some f \<and> objs m' Xa = Some X \<and> objs m' ya = Some y
         \<and> columns f = columns f0
         \<and> rows f = filter (\<lambda>(l, cs). complete (columns f0) cs) (rows f0)
         \<and> length (rows X) = length (filter (\<lambda>(l, cs). complete (columns f0) cs) (rows f0))
         \<and> (\<forall>(l, cs) \<in> set (rows X). \<forall>c \<in> set cs. notna c)
         \<and> (\<forall>(l, cs) \<in> set (rows y). \<forall>c \<in> set cs. notna c)
         \<and> rows X = map (\<lambda>(l, cs). (l, map (\<lambda>i. cs ! i)
                                         (concat (map (positions (columns f0)) features))))
                         (rows f)
         \<and> rows y = map (\<lambda>(l, cs). (l, map (\<lambda>i. cs ! i) (positions (columns f0) ''war'')))
                         (rows f)"
  using df0 cols by (rule feature_preparer_result)

theorem feature_preparer_drops_incomplete_rows_witness:
  "objs \<lparr>objs = [0 \<mapsto> toy_table], fresh = 1\<rparr> 0 = Some toy_table
   \<and> set (features @ [''war'']) \<subseteq> set (columns toy_table)
   \<and> (\<exists>df Xa ya m' f X y.
         feature_preparer \<lparr>objs = [0 \<mapsto> toy_table], fresh = 1\<rparr> 0 = Inr (df, Xa, ya, m')
       \<and> objs m' df = Some f \<and> objs m' Xa = Some X \<and> objs m' ya = Some y
       \<and> length (rows X) = 10
       \<and> map fst (rows f) = [0, 1, 2, 4, 5, 6, 8, 9, 10, 11]
       \<and> (\<forall>(l, cs) \<in> set (rows X). \<forall>c \<in> set cs. notna c)
       \<and> (\<forall>(l, cs) \<in> set (rows y). \<forall>c \<in> set cs. notna c))"
proof -
  let ?m = "\<lparr>objs = [0 \<mapsto> toy_table], fresh = 1\<rparr> :: rat mem"
  have h1: "objs ?m 0 = Some toy_table" by simp
  have h2: "set (features @ [''war'']) \<subseteq> set (columns toy_table)"
    by (simp add: toy_table_columns features_def)
  have kept: "map fst (filter (\<lambda>(l, cs). complete (columns toy_table) cs) (rows toy_table))
      = [0, 1, 2, 4, 5, 6, 8, 9, 10, 11]"
    unfolding toy_table_columns
    by (simp add: toy_table_def toy_csv_def complete_def features_def upt_rec)
  from feature_preparer_drops_incomplete_rows [OF h1 h2]
  obtain df Xa ya m' f X y where
    r: "feature_preparer ?m 0 = Inr (df, Xa, ya, m')"
      "objs m' df = Some f" "objs m' Xa = Some X" "objs m' ya = Some y"
      "rows f = filter (\<lambda>(l, cs). complete (columns toy_table) cs) (rows toy_table)"
      "length (rows X)
         = length (filter (\<lambda>(l, cs). complete (columns toy_table) cs) (rows toy_table))"
      "\<forall>(l, cs) \<in> set (rows X). \<forall>c \<in> set cs. notna c"
      "\<forall>(l, cs) \<in> set (rows y). \<forall>c \<in> set cs. notna c"
    by blast
  have n: "length (rows X) = 10"
    using r(6) arg_cong [OF kept, of length] by simp
  have ls: "map fst (rows f) = [0, 1, 2, 4, 5, 6, 8, 9, 10, 11]"
    using r(5) kept by simp
  show ?thesis
  proof (intro conjI exI)
    show "feature_preparer ?m 0 = Inr (df, Xa, ya, m')" by (rule r(1))
    show "objs m' df = Some f" by (rule r(2))
    show "objs m' Xa = Some X" by (rule r(3))
    show "objs m' ya = Some y" by (rule r(4))
    show "length (rows X) = 10" by (rule n)
    show "map fst (rows f) = [0, 1, 2, 4, 5, 6, 8, 9, 10, 11]" by (rule ls)
    show "\<forall>(l, cs) \<in> set (rows X). \<forall>c \<in> set cs. notna c" by (rule r(7))
    show "\<forall>(l, cs) \<in> set (rows y). \<forall>c \<in> set cs. notna c" by (rule r(8))
  qed (rule h1, rule h2)
qed

subsection \<open>The Clusterer: the search for the number of clusters\<close>

lemma update_fresh_key: "k \<notin> fst ` set al \<Longrightarrow> AList.update k v al = al @ [(k, v)]"
  by (induction al) auto

lemma silhouette_search_Inr:
  assumes "silhouette_search L amb Xs ks sc = Inr out"
    and "distinct ks" and "set ks \<inter> fst ` set sc = {}"
  shows "\<exists>new. out = sc @ new \<and> map fst new = ks
           \<and> (\<forall>(k, s) \<in> set new. \<exists>l. kmeans_fit_predict L (amb k) k (Some 42) Xs = Inr l
                                       \<and> silhouette_score L Xs l = Inr s)"
  using assms
proof (induction ks arbitrary: sc)
  case Nil
  then show ?case by simp
next
  case (Cons k ks)
  from Cons.prems(1) obtain l s where
    l: "kmeans_fit_predict L (amb k) k (Some 42) Xs = Inr l"
    and s: "silhouette_score L Xs l = Inr s"
    and rest: "silhouette_search L amb Xs ks (AList.update k s sc) = Inr out"
    by (auto simp: bnd_Inr_iff)
  from Cons.prems(3) have upd: "AList.update k s sc = sc @ [(k, s)]"
    by (intro update_fresh_key) auto
  have "set ks \<inter> fst ` set (sc @ [(k, s)]) = {}"
    using Cons.prems(2,3) by auto
  with Cons.IH [of "sc @ [(k, s)]"] rest upd Cons.prems(2)
  obtain new where new: "out = (sc @ [(k, s)]) @ new" "map fst new = ks"
    "\<forall>(k, s) \<in> set new. \<exists>l. kmeans_fit_predict L (amb k) k (Some 42) Xs = Inr l
                             \<and> silhouette_score L Xs l = Inr s"
    by auto
  show ?case
  proof (intro exI conjI)
    show "out = sc @ ((k, s) # new)" using new(1) by simp
    show "map fst ((k, s) # new) = k # ks" using new(2) by simp
    show "\<forall>(k, s) \<in> set ((k, s) # new). \<exists>l. kmeans_fit_predict L (amb k) k (Some 42) Xs = Inr l
                             \<and> silhouette_score L Xs l = Inr s"
      using new(3) l s by auto
  qed
qed

lemma foldl_max:
  fixes bs :: "'s::linorder"
  assumes "foldl (\<lambda>(bk, bs) (k', s'). if s' > bs then (k', s') else (bk, bs)) (bk, bs) xs = (rk, rs)"
  shows "((rk, rs) = (bk, bs) \<and> (\<forall>(k, s) \<in> set xs. s \<le> bs))
       \<or> (\<exists>pre post. xs = pre @ (rk, rs) # post \<and> bs < rs
             \<and> (\<forall>(k, s) \<in> set pre. s < rs) \<and> (\<forall>(k, s) \<in> set post. s \<le> rs))"
  using assms
proof (induction xs arbitrary: bk bs)
  case Nil
  then show ?case by simp
next
  case (Cons x xs)
  obtain k s where x: "x = (k, s)" by (cases x)
  show ?case
  proof (cases "s > bs")
    case True
    with Cons.prems x have "foldl (\<lambda>(bk, bs) (k', s'). if s' > bs then (k', s') else (bk, bs)) (k, s) xs = (rk, rs)"
      by simp
    from Cons.IH [OF this] show ?thesis
    proof
      assume "(rk, rs) = (k, s) \<and> (\<forall>(k, s') \<in> set xs. s' \<le> s)"
      with True x have "x # xs = [] @ (rk, rs) # xs \<and> bs < rs
          \<and> (\<forall>(k, s) \<in> set []. s < rs) \<and> (\<forall>(k, s) \<in> set xs. s \<le> rs)"
        by auto
      then show ?thesis by blast
    next
      assume "\<exists>pre post. xs = pre @ (rk, rs) # post \<and> s < rs
             \<and> (\<forall>(k, s) \<in> set pre. s < rs) \<and> (\<forall>(k, s) \<in> set post. s \<le> rs)"
      then obtain pre post where p: "xs = pre @ (rk, rs) # post" "s < rs"
        "\<forall>(k, s) \<in> set pre. s < rs" "\<forall>(k, s) \<in> set post. s \<le> rs"
        by blast
      with True x have "x # xs = (x # pre) @ (rk, rs) # post \<and> bs < rs
          \<and> (\<forall>(k, s) \<in> set (x # pre). s < rs) \<and> (\<forall>(k, s) \<in> set post. s \<le> rs)"
        by auto
      then show ?thesis by blast
    qed
  next
    case False
    with Cons.prems x have "foldl (\<lambda>(bk, bs) (k', s'). if s' > bs then (k', s') else (bk, bs)) (bk, bs) xs = (rk, rs)"
      by simp
    from Cons.IH [OF this] show ?thesis
    proof
      assume "(rk, rs) = (bk, bs) \<and> (\<forall>(k, s) \<in> set xs. s \<le> bs)"
      with False x show ?thesis by auto
    next
      assume "\<exists>pre post. xs = pre @ (rk, rs) # post \<and> bs < rs
             \<and> (\<forall>(k, s) \<in> set pre. s < rs) \<and> (\<forall>(k, s) \<in> set post. s \<le> rs)"
      then obtain pre post where p: "xs = pre @ (rk, rs) # post" "bs < rs"
        "\<forall>(k, s) \<in> set pre. s < rs" "\<forall>(k, s) \<in> set post. s \<le> rs"
        by blast
      with False x have "x # xs = (x # pre) @ (rk, rs) # post \<and> bs < rs
          \<and> (\<forall>(k, s) \<in> set (x # pre). s < rs) \<and> (\<forall>(k, s) \<in> set post. s \<le> rs)"
        by auto
      then show ?thesis by blast
    qed
  qed
qed

lemma max_key_first_maximum:
  assumes "max_key kvs = Inr b"
  shows "\<exists>pre s post. kvs = pre @ (b, s) # post
           \<and> (\<forall>(k, s') \<in> set pre. s' < s) \<and> (\<forall>(k, s') \<in> set post. s' \<le> s)"
proof (cases kvs)
  case Nil
  with assms show ?thesis by simp
next
  case (Cons x xs)
  obtain k0 s0 where x: "x = (k0, s0)" by (cases x)
  obtain rk rs where f: "foldl (\<lambda>(bk, bs) (k', s'). if s' > bs then (k', s') else (bk, bs)) (k0, s0) xs = (rk, rs)"
    by (cases "foldl (\<lambda>(bk, bs) (k', s'). if s' > bs then (k', s') else (bk, bs)) (k0, s0) xs")
  with assms Cons x have b: "b = rk" by simp
  from foldl_max [OF f] show ?thesis
  proof
    assume "(rk, rs) = (k0, s0) \<and> (\<forall>(k, s) \<in> set xs. s \<le> s0)"
    with Cons x b have "kvs = [] @ (b, s0) # xs \<and> (\<forall>(k, s') \<in> set []. s' < s0)
        \<and> (\<forall>(k, s') \<in> set xs. s' \<le> s0)"
      by auto
    then show ?thesis by blast
  next
    assume "\<exists>pre post. xs = pre @ (rk, rs) # post \<and> s0 < rs
             \<and> (\<forall>(k, s) \<in> set pre. s < rs) \<and> (\<forall>(k, s) \<in> set post. s \<le> rs)"
    then obtain pre post where p: "xs = pre @ (rk, rs) # post" "s0 < rs"
      "\<forall>(k, s) \<in> set pre. s < rs" "\<forall>(k, s) \<in> set post. s \<le> rs"
      by blast
    with Cons x b have "kvs = (x # pre) @ (b, rs) # post \<and> (\<forall>(k, s') \<in> set (x # pre). s' < rs)
        \<and> (\<forall>(k, s') \<in> set post. s' \<le> rs)"
      by auto
    then show ?thesis by blast
  qed
qed

lemma max_key_least_argmax:
  assumes "max_key kvs = Inr b" and "sorted (map fst kvs)" and "distinct (map fst kvs)"
  shows "\<exists>s. (b, s) \<in> set kvs \<and> (\<forall>(k, s') \<in> set kvs. s' \<le> s \<and> (s' = s \<longrightarrow> b \<le> k))"
proof -
  from max_key_first_maximum [OF assms(1)] obtain pre s post where
    p: "kvs = pre @ (b, s) # post" "\<forall>(k, s') \<in> set pre. s' < s" "\<forall>(k, s') \<in> set post. s' \<le> s"
    by blast
  have post: "b \<le> k" if "(k, s') \<in> set post" for k s'
    using assms(2) that unfolding p(1) by (force simp: sorted_append)
  have "(\<forall>(k, s') \<in> set kvs. s' \<le> s \<and> (s' = s \<longrightarrow> b \<le> k))"
    unfolding p(1) using p(2,3) post by (auto simp: less_le)
  moreover have "(b, s) \<in> set kvs" using p(1) by simp
  ultimately show ?thesis by blast
qed

lemma clusterer_Inr:
  assumes "clusterer L amb m df Xa = Inr r"
  shows "\<exists>X m1 c0 m2 c1.
           deref m Xa = Inr X
         \<and> scaler_fit_transform L X = Inr (X_scaled r)
         \<and> pca_fit_transform L (amb 1) 2 None (X_scaled r) = Inr (X_pca r)
         \<and> silhouette_search L amb (X_scaled r) [2..<10] [] = Inr (scores r)
         \<and> max_key (scores r) = Inr (best_k r)
         \<and> kmeans_fit_predict L (amb 10) (best_k r) (Some 42) (X_scaled r) = Inr (labels r)
         \<and> assign m df ''cluster'' (map Lbl (labels r)) = Inr m1
         \<and> column (X_pca r) 0 = Inr c0
         \<and> assign m1 df ''PC1'' (map Num c0) = Inr m2
         \<and> column (X_pca r) 1 = Inr c1
         \<and> assign m2 df ''PC2'' (map Num c1) = Inr (clu_mem r)"
  using assms unfolding clusterer_def bnd_Inr_iff by auto

lemma candidates: "[2..<10] = [2, 3, 4, 5, 6, 7, 8, 9 :: nat]"
  by (simp add: upt_rec)

lemma clusterer_scores:
  assumes "clusterer L amb m df Xa = Inr r"
  shows "map fst (scores r) = [2, 3, 4, 5, 6, 7, 8, 9]"
    and "\<forall>(k, s) \<in> set (scores r).
           \<exists>l. kmeans_fit_predict L (amb k) k (Some 42) (X_scaled r) = Inr l
              \<and> silhouette_score L (X_scaled r) l = Inr s"
proof -
  from clusterer_Inr [OF assms]
  have "silhouette_search L amb (X_scaled r) [2..<10] [] = Inr (scores r)" by blast
  from silhouette_search_Inr [OF this]
  obtain new where "scores r = [] @ new" "map fst new = [2..<10]"
    "\<forall>(k, s) \<in> set new.
           \<exists>l. kmeans_fit_predict L (amb k) k (Some 42) (X_scaled r) = Inr l
              \<and> silhouette_score L (X_scaled r) l = Inr s"
    by auto
  then show "map fst (scores r) = [2, 3, 4, 5, 6, 7, 8, 9]"
    and "\<forall>(k, s) \<in> set (scores r).
           \<exists>l. kmeans_fit_predict L (amb k) k (Some 42) (X_scaled r) = Inr l
              \<and> silhouette_score L (X_scaled r) l = Inr s"
    by (simp_all add: candidates)
qed

lemma scores_key_fit:
  assumes "clusterer L amb m df Xa = Inr r" and "(k, s) \<in> set (scores r)"
  shows "\<exists>l. kmeans_fit_predict L (amb k) k (Some 42) (X_scaled r) = Inr l
            \<and> silhouette_score L (X_scaled r) l = Inr s"
  using clusterer_scores(2) [OF assms(1)] assms(2) by auto

lemma silhouette_search_seeded:
  assumes "seeded L"
  shows "silhouette_search L amb Xs ks sc = silhouette_search L amb' Xs ks sc"
proof (induction ks arbitrary: sc)
  case Nil
  show ?case by simp
next
  case (Cons k ks)
  from assms have "kmeans_fit_predict L (amb k) k (Some 42) Xs
      = kmeans_fit_predict L (amb' k) k (Some 42) Xs"
    unfolding seeded_def by blast
  with Cons.IH show ?case by simp
qed

lemma regressor_seeded:
  assumes "seeded L"
  shows "regressor L amb m Xa ya = regressor L amb' m Xa ya"
proof -
  from assms have "train_test_split L (amb 0) X y ts (Some 42)
      = train_test_split L (amb' 0) X y ts (Some 42)" for X y ts
    unfolding seeded_def by blast
  then show ?thesis by (simp add: regressor_def)
qed

lemma clusterer_seeded:
  assumes "seeded L"
    and r: "clusterer L amb m df Xa = Inr r" and r': "clusterer L amb' m df Xa = Inr r'"
  shows "X_scaled r = X_scaled r' \<and> scores r = scores r' \<and> best_k r = best_k r'
       \<and> labels r = labels r'"
proof -
  from clusterer_Inr [OF r] obtain X where
    a: "deref m Xa = Inr X" "scaler_fit_transform L X = Inr (X_scaled r)"
      "silhouette_search L amb (X_scaled r) [2..<10] [] = Inr (scores r)"
      "max_key (scores r) = Inr (best_k r)"
      "kmeans_fit_predict L (amb 10) (best_k r) (Some 42) (X_scaled r) = Inr (labels r)"
    by blast
  from clusterer_Inr [OF r'] obtain X' where
    b: "deref m Xa = Inr X'" "scaler_fit_transform L X' = Inr (X_scaled r')"
      "silhouette_search L amb' (X_scaled r') [2..<10] [] = Inr (scores r')"
      "max_key (scores r') = Inr (best_k r')"
      "kmeans_fit_predict L (amb' 10) (best_k r') (Some 42) (X_scaled r') = Inr (labels r')"
    by blast
  from a(1,2) b(1,2) have xs: "X_scaled r = X_scaled r'" by simp
  with a(3) b(3) silhouette_search_seeded [OF assms(1), of amb "X_scaled r'" "[2..<10]" "[]" amb']
  have sc: "scores r = scores r'" by simp
  with a(4) b(4) have bk: "best_k r = best_k r'" by simp
  from assms(1) have "kmeans_fit_predict L (amb 10) (best_k r') (Some 42) (X_scaled r')
      = kmeans_fit_predict L (amb' 10) (best_k r') (Some 42) (X_scaled r')"
    unfolding seeded_def by blast
  with a(5) b(5) xs bk have "labels r = labels r'" by simp
  with xs sc bk show ?thesis by simp
qed

subsection \<open>The stand-in run\<close>

lemma toy_rows:
  "rows toy_table =
     map (\<lambda>i. (i, Str ''p'' # Str ''q''
                       # map (\<lambda>j. if (i = 3 \<and> j = 2) \<or> (i = 7 \<and> j = 10) then NA
                                   else Num (of_nat (i * j))) [0..<11]))
            [0..<12]"
  by (simp add: toy_table_def toy_csv_def)

lemma toy_prepare: "feature_preparer toy_loaded 0 = Inr (1, 2, 3, toy_prepared)"
  by (simp add: feature_preparer_def toy_loaded_def toy_prepared_def deref_def alloc_def
      dropna_def getitem_def getitem_list_def get_indexer_for_def positions_def
      toy_table_columns toy_kept_def toy_X_def toy_y_def toy_rows features_def upt_rec
      numeral_2_eq_2 numeral_3_eq_3)

lemma toy_X_shape: "length (rows toy_X) = 10" "length (columns toy_X) = 10" "rows toy_X \<noteq> []"
  by (simp_all add: toy_X_def toy_kept_def toy_rows features_def upt_rec)

lemma toy_X_constant:
  "map (is_constant toy_X) [0..<10]
     = [True, False, False, False, False, False, False, False, False, False]"
  by (simp add: is_constant_def toy_X_def toy_kept_def toy_rows upt_rec)

lemma toy_scaler_columns:
  "toy_scaler X =
     (if rows X = [] \<or> odd (length (rows X)) then Inl ValueError
      else Inr (map (\<lambda>i. map (\<lambda>c. if c then 0 else if even i then 1 else - 1)
                             (map (is_constant X) [0..<length (columns X)]))
                    [0..<length (rows X)]))"
  by (simp add: toy_scaler_def comp_def)

lemma toy_scaled:
  "toy_scaler toy_X =
     Inr (map (\<lambda>i. map (\<lambda>c. if c then 0 else if even i then 1 else - 1)
                        [True, False, False, False, False, False, False, False, False, False])
              [0..<10])"
  by (simp add: toy_scaler_columns toy_X_shape toy_X_constant)

lemma toy_clustering:
  "\<exists>r. clusterer toy_library amb toy_prepared 1 2 = Inr r
      \<and> scores r = [(2, 2), (3, 3), (4, 4), (5, 4), (6, 4), (7, 4), (8, 4), (9, 4)]
      \<and> best_k r = 4
      \<and> labels r = [2, 3, 0, 1, 2, 3, 0, 1, 2, 3]
      \<and> col (X_scaled r) 0 = [0, 0, 0, 0, 0, 0, 0, 0, 0, 0]
      \<and> col (X_scaled r) 1 = [1, - 1, 1, - 1, 1, - 1, 1, - 1, 1, - 1]"
  by (simp add: clusterer_def toy_library_def toy_prepared_def deref_def toy_seed_def column_def
      assign_def setitem_def store_def toy_table_columns toy_kept_def toy_rows
      upt_rec toy_scaled col_def positions_Nil positions_Cons)

lemma toy_regression:
  "\<exists>r. regressor toy_library amb toy_prepared 2 3 = Inr r
      \<and> map fst (rows (X_test r)) = [10, 11] \<and> coef r = A1 [0, 0, 0, 0, 0, 0, 0, 0, 0, 0]"
  by (simp add: regressor_def toy_library_def toy_prepared_def deref_def toy_seed_def toy_split_def
      toy_table_columns toy_kept_def toy_X_def toy_y_def toy_rows
      features_def upt_rec print_coefs_def)

lemma toy_seeded: "seeded toy_library"
  by (simp add: seeded_def toy_library_def toy_split_def toy_seed_def Let_def)

text \<open>
  Claim C1. In every run of the Clusterer that returns, the dictionary of scores has
  exactly the keys 2, 3, ..., 9, in this order; the score under \<open>k\<close> is the silhouette
  score of the labels K-Means returned for \<open>k\<close> clusters on the standardized features;
  and \<open>best_k\<close> is a key of maximal score, the smallest one among the keys of that score.
\<close>

theorem clusterer_selects_best_k:
  assumes "clusterer L amb m df Xa = Inr r"
  shows "map fst (scores r) = [2, 3, 4, 5, 6, 7, 8, 9]
       \<and> (\<forall>(k, s) \<in> set (scores r).
            \<exists>l. kmeans_fit_predict L (amb k) k (Some 42) (X_scaled r) = Inr l
               \<and> silhouette_score L (X_scaled r) l = Inr s)
       \<and> (\<exists>s. (best_k r, s) \<in> set (scores r)
             \<and> (\<forall>(k, s') \<in> set (scores r). s' \<le> s \<and> (s' = s \<longrightarrow> best_k r \<le> k)))"
proof -
  from clusterer_Inr [OF assms] have mk: "max_key (scores r) = Inr (best_k r)" by blast
  have keys: "map fst (scores r) = [2, 3, 4, 5, 6, 7, 8, 9]"
    by (rule clusterer_scores(1) [OF assms])
  have "sorted (map fst (scores r))" and "distinct (map fst (scores r))"
    unfolding keys by simp_all
  from max_key_least_argmax [OF mk this] clusterer_scores [OF assms]
  show ?thesis by blast
qed

text \<open>
  Claim C10. When seeded K-Means does not depend on the ambient state, the labels of the
  final fit are the labels that the fit for \<open>best_k\<close> clusters returned inside the search
  loop, on the same standardized features, and the score recorded for \<open>best_k\<close> is the
  score of these labels.
\<close>

theorem final_fit_repeats_search_fit:
  assumes run: "clusterer L amb m df Xa = Inr r" and seeded: "seeded L"
  shows "\<exists>s. (best_k r, s) \<in> set (scores r)
            \<and> kmeans_fit_predict L (amb (best_k r)) (best_k r) (Some 42) (X_scaled r)
                = Inr (labels r)
            \<and> silhouette_score L (X_scaled r) (labels r) = Inr s"
proof -
  from clusterer_Inr [OF run]
  have mk: "max_key (scores r) = Inr (best_k r)"
    and fin: "kmeans_fit_predict L (amb 10) (best_k r) (Some 42) (X_scaled r) = Inr (labels r)"
    by blast+
  from max_key_first_maximum [OF mk] obtain pre s post where
    "scores r = pre @ (best_k r, s) # post"
    by blast
  then have s: "(best_k r, s) \<in> set (scores r)"
    by simp
  from scores_key_fit [OF run s] obtain l where
    l: "kmeans_fit_predict L (amb (best_k r)) (best_k r) (Some 42) (X_scaled r) = Inr l"
    "silhouette_score L (X_scaled r) l = Inr s"
    by blast
  from seeded have "kmeans_fit_predict L (amb (best_k r)) (best_k r) (Some 42) (X_scaled r)
      = kmeans_fit_predict L (amb 10) (best_k r) (Some 42) (X_scaled r)"
    unfolding seeded_def by blast
  with fin l have "l = labels r" by simp
  with s l show ?thesis by blast
qed

theorem clusterer_selects_best_k_witness:
  "\<exists>r. clusterer toy_library (\<lambda>i. i) toy_prepared 1 2 = Inr r
      \<and> scores r = [(2, 2), (3, 3), (4, 4), (5, 4), (6, 4), (7, 4), (8, 4), (9, 4)]
      \<and> best_k r = 4
      \<and> map fst (scores r) = [2, 3, 4, 5, 6, 7, 8, 9]
      \<and> (\<forall>(k, s) \<in> set (scores r).
            \<exists>l. kmeans_fit_predict toy_library k k (Some 42) (X_scaled r) = Inr l
               \<and> silhouette_score toy_library (X_scaled r) l = Inr s)
      \<and> (\<exists>s. (best_k r, s) \<in> set (scores r)
            \<and> (\<forall>(k, s') \<in> set (scores r). s' \<le> s \<and> (s' = s \<longrightarrow> best_k r \<le> k)))"
proof -
  from toy_clustering [of "\<lambda>i. i"] obtain r where
    r1: "clusterer toy_library (\<lambda>i. i) toy_prepared 1 2 = Inr r"
    and r2: "scores r = [(2, 2), (3, 3), (4, 4), (5, 4), (6, 4), (7, 4), (8, 4), (9, 4)]"
    and r3: "best_k r = 4"
    by (elim exE conjE)
  note t = clusterer_selects_best_k [OF r1]
  show ?thesis
  proof (rule exI [of _ r], intro conjI)
    show "clusterer toy_library (\<lambda>i. i) toy_prepared 1 2 = Inr r" by (rule r1)
    show "scores r = [(2, 2), (3, 3), (4, 4), (5, 4), (6, 4), (7, 4), (8, 4), (9, 4)]"
      by (rule r2)
    show "best_k r = 4" by (rule r3)
    show "map fst (scores r) = [2, 3, 4, 5, 6, 7, 8, 9]"
      by (rule conjunct1 [OF t])
    show "\<forall>(k, s) \<in> set (scores r).
            \<exists>l. kmeans_fit_predict toy_library k k (Some 42) (X_scaled r) = Inr l
               \<and> silhouette_score toy_library (X_scaled r) l = Inr s"
      by (rule conjunct1 [OF conjunct2 [OF t]])
    show "\<exists>s. (best_k r, s) \<in> set (scores r)
            \<and> (\<forall>(k, s') \<in> set (scores r). s' \<le> s \<and> (s' = s \<longrightarrow> best_k r \<le> k))"
      by (rule conjunct2 [OF conjunct2 [OF t]])
  qed
qed

theorem final_fit_repeats_search_fit_witness:
  "seeded toy_library
   \<and> (\<exists>r. clusterer toy_library (\<lambda>i. i) toy_prepared 1 2 = Inr r
        \<and> best_k r = 4 \<and> labels r = [2, 3, 0, 1, 2, 3, 0, 1, 2, 3]
        \<and> (\<exists>s. (best_k r, s) \<in> set (scores r)
              \<and> kmeans_fit_predict toy_library (best_k r) (best_k r) (Some 42) (X_scaled r)
                  = Inr (labels r)
              \<and> silhouette_score toy_library (X_scaled r) (labels r) = Inr s))"
proof -
  from toy_clustering [of "\<lambda>i. i"] obtain r where
    r1: "clusterer toy_library (\<lambda>i. i) toy_prepared 1 2 = Inr r"
    and r3: "best_k r = 4" and r4: "labels r = [2, 3, 0, 1, 2, 3, 0, 1, 2, 3]"
    by (elim exE conjE)
  note t = final_fit_repeats_search_fit [OF r1 toy_seeded]
  have "\<exists>r. clusterer toy_library (\<lambda>i. i) toy_prepared 1 2 = Inr r
        \<and> best_k r = 4 \<and> labels r = [2, 3, 0, 1, 2, 3, 0, 1, 2, 3]
        \<and> (\<exists>s. (best_k r, s) \<in> set (scores r)
              \<and> kmeans_fit_predict toy_library (best_k r) (best_k r) (Some 42) (X_scaled r)
                  = Inr (labels r)
              \<and> silhouette_score toy_library (X_scaled r) (labels r) = Inr s)"
  proof (rule exI [of _ r], intro conjI)
    show "clusterer toy_library (\<lambda>i. i) toy_prepared 1 2 = Inr r" by (rule r1)
    show "best_k r = 4" by (rule r3)
    show "labels r = [2, 3, 0, 1, 2, 3, 0, 1, 2, 3]" by (rule r4)
    show "\<exists>s. (best_k r, s) \<in> set (scores r)
              \<and> kmeans_fit_predict toy_library (best_k r) (best_k r) (Some 42) (X_scaled r)
                  = Inr (labels r)
              \<and> silhouette_score toy_library (X_scaled r) (labels r) = Inr s"
      by (rule t)
  qed
  with toy_seeded show ?thesis by (rule conjI)
qed

subsection \<open>The Clusterer: what it stores\<close>

lemma positions_append:
  "positions (xs @ ys) name = positions xs name @ map (\<lambda>i. i + length xs) (positions ys name)"
  by (induction xs) (simp_all add: positions_Nil positions_Cons comp_def)

lemma positions_absent: "name \<notin> set cols \<Longrightarrow> positions cols name = []"
  by (auto simp: positions_def filter_empty_conv)


lemma positions_new: "name \<notin> set cols \<Longrightarrow> length (positions (cols @ [name]) name) = 1"
  by (simp add: positions_append positions_absent positions_Cons positions_Nil)


lemma stored_append:
  assumes "name \<notin> set ys" and "j \<le> length xs"
  shows "stored (xs @ ys) name vals i j = stored xs name vals i j"
  using assms by (simp add: stored_def positions_append positions_absent)


lemma setitem_Inr:
  assumes s: "setitem name vals f = Inr f'" and rect: "rectangular f"
  shows "map fst (rows f') = map fst (rows f)"
    and "columns f' = columns f @ filter (\<lambda>n. n \<notin> set (columns f)) [name]"
    and "rectangular f'"
    and "\<forall>i < length (rows f). \<forall>j < length (columns f').
           snd (rows f' ! i) ! j
             = (if columns f' ! j = name then stored (columns f') name vals i j
                else snd (rows f ! i) ! j)"
    and "\<not> (1 < length (positions (columns f) name)
             \<and> length (positions (columns f) name) = length vals)
         \<Longrightarrow> length vals = length (rows f)"
proof -
  let ?B = "1 < length (positions (columns f) name)
             \<and> length (positions (columns f) name) = length vals"
  have rectI: "length (snd (rows f ! i)) = length (columns f)" if "i < length (rows f)" for i
    using rect that by (simp add: rectangular_def)
  show len: "length vals = length (rows f)" if nb: "\<not> ?B"
    using s unfolding setitem_def if_not_P [OF nb] by (simp split: if_splits)
  have all: "map fst (rows f') = map fst (rows f)
     \<and> columns f' = columns f @ filter (\<lambda>n. n \<notin> set (columns f)) [name]
     \<and> rectangular f'
     \<and> (\<forall>i < length (rows f). \<forall>j < length (columns f').
           snd (rows f' ! i) ! j
             = (if columns f' ! j = name then stored (columns f') name vals i j
                else snd (rows f ! i) ! j))"
  proof (cases ?B)
    case True
    let ?g = "\<lambda>cs. map (\<lambda>((j, cn), c).
                         if cn = name
                         then vals ! length (positions (take j (columns f)) name)
                         else c)
                      (zip (enumerate 0 (columns f)) cs)"
    from s True have f': "f' = f\<lparr>rows := map (\<lambda>(l, cs). (l, ?g cs)) (rows f)\<rparr>"
      by (simp add: setitem_def)
    from True have "positions (columns f) name \<noteq> []" by auto
    then have mem: "name \<in> set (columns f)"
      using positions_absent by blast
    have c: "columns f' = columns f" by (simp add: f')
    have l: "map fst (rows f') = map fst (rows f)"
      by (simp add: f' case_prod_beta comp_def)
    have r: "rectangular f'"
      using rect by (auto simp: f' rectangular_def)
    have cells: "snd (rows f' ! i) ! j
             = (if columns f' ! j = name then stored (columns f') name vals i j
                else snd (rows f ! i) ! j)"
      if i: "i < length (rows f)" and j: "j < length (columns f')" for i j
    proof -
      obtain l cs where row: "rows f ! i = (l, cs)" by (cases "rows f ! i")
      with rectI [OF i] have cs: "length cs = length (columns f)" by simp
      from j c have j': "j < length (columns f)" by simp
      have "snd (rows f' ! i) ! j = ?g cs ! j"
        using i row by (simp add: f')
      also have "\<dots> = (if columns f ! j = name
                        then vals ! length (positions (take j (columns f)) name)
                        else cs ! j)"
        using j' cs by (simp add: nth_enumerate_eq)
      finally show ?thesis
        using True row by (simp add: c stored_def)
    qed
    from l c mem r cells show ?thesis by simp
  next
    case False
    note len' = len [OF False]
    show ?thesis
    proof (cases "name \<in> set (columns f)")
      case True
      with s len' have f': "f' = f\<lparr>rows := map (\<lambda>((l, cs), v).
                             (l, map (\<lambda>(cn, c). if cn = name then v else c) (zip (columns f) cs)))
                          (zip (rows f) vals)\<rparr>"
        unfolding setitem_def if_not_P [OF False] by simp
      have c: "columns f' = columns f" by (simp add: f')
      have l: "map fst (rows f') = map fst (rows f)"
        using len' by (auto simp: f' split: prod.splits intro!: nth_equalityI)
      have r: "rectangular f'"
        using rect by (fastforce simp: f' rectangular_def dest!: set_zip_leftD)
      have cells: "snd (rows f' ! i) ! j
             = (if columns f' ! j = name then stored (columns f') name vals i j
                else snd (rows f ! i) ! j)"
        if i: "i < length (rows f)" and j: "j < length (columns f')" for i j
      proof -
        obtain l cs where row: "rows f ! i = (l, cs)" by (cases "rows f ! i")
        with rectI [OF i] have cs: "length cs = length (columns f)" by simp
        from j c have j': "j < length (columns f)" by simp
        have st: "stored (columns f) name vals i j = vals ! i"
          unfolding stored_def if_not_P [OF False] by (rule refl)
        show ?thesis
          using i j' len' row cs st by (simp add: f')
      qed
      from l c True r cells show ?thesis by simp
    next
      case new: False
      with s len' have f': "f' = \<lparr>columns = columns f @ [name],
             rows = map (\<lambda>((l, cs), v). (l, cs @ [v])) (zip (rows f) vals)\<rparr>"
        unfolding setitem_def if_not_P [OF False] by simp
      have c: "columns f' = columns f @ [name]" by (simp add: f')
      have l: "map fst (rows f') = map fst (rows f)"
        using len' by (auto simp: f' split: prod.splits intro!: nth_equalityI)
      have r: "rectangular f'"
        using rect by (fastforce simp: f' rectangular_def dest!: set_zip_leftD)
      have st: "stored (columns f') name vals i j = vals ! i" for i j
        using positions_new [OF new] by (simp add: stored_def c)
      have cells: "snd (rows f' ! i) ! j
             = (if columns f' ! j = name then stored (columns f') name vals i j
                else snd (rows f ! i) ! j)"
        if i: "i < length (rows f)" and j: "j < length (columns f')" for i j
      proof -
        obtain l cs where row: "rows f ! i = (l, cs)" by (cases "rows f ! i")
        with rectI [OF i] have cs: "length cs = length (columns f)" by simp
        show ?thesis
        proof (cases "j < length (columns f)")
          case True
          with new have "columns f ! j \<noteq> name" by (metis nth_mem)
          with True i len' row cs show ?thesis
            by (simp add: f' nth_append)
        next
          case False
          with j c have "j = length (columns f)" by simp
          with i len' row cs st [of i j] show ?thesis
            by (simp add: f' nth_append)
        qed
      qed
      from l c new r cells show ?thesis by simp
    qed
  qed
  from all show "map fst (rows f') = map fst (rows f)"
    and "columns f' = columns f @ filter (\<lambda>n. n \<notin> set (columns f)) [name]"
    and "rectangular f'"
    and "\<forall>i < length (rows f). \<forall>j < length (columns f').
           snd (rows f' ! i) ! j
             = (if columns f' ! j = name then stored (columns f') name vals i j
                else snd (rows f ! i) ! j)"
    by simp_all
qed

lemma assign_Inr:
  assumes "assign m a name vals = Inr m'"
  shows "\<exists>f f'. objs m a = Some f \<and> setitem name vals f = Inr f' \<and> m' = store a f' m"
  using assms
  by (auto simp: assign_def deref_def bnd_Inr_iff split: option.splits)

lemma three_columns:
  fixes cols :: "string list"
  shows "(cols @ filter (\<lambda>n. n \<notin> set cols) [''cluster''])
           @ filter (\<lambda>n. n \<notin> set (cols @ filter (\<lambda>n. n \<notin> set cols) [''cluster''])) [''PC1'']
         = cols @ filter (\<lambda>n. n \<notin> set cols) [''cluster'', ''PC1'']"
    and "(cols @ filter (\<lambda>n. n \<notin> set cols) [''cluster'', ''PC1''])
           @ filter (\<lambda>n. n \<notin> set (cols @ filter (\<lambda>n. n \<notin> set cols) [''cluster'', ''PC1''])) [''PC2'']
         = cols @ filter (\<lambda>n. n \<notin> set cols) [''cluster'', ''PC1'', ''PC2'']"
  by auto

lemma clusterer_frame:
  assumes run: "clusterer L amb m df Xa = Inr r"
    and f: "objs m df = Some f" and rect: "rectangular f"
  shows "\<exists>f' c0 c1.
           column (X_pca r) 0 = Inr c0 \<and> column (X_pca r) 1 = Inr c1
         \<and> clu_mem r = m\<lparr>objs := (objs m)(df \<mapsto> f')\<rparr>
         \<and> rectangular f'
         \<and> map fst (rows f') = map fst (rows f)
         \<and> columns f' = columns f @ filter (\<lambda>n. n \<notin> set (columns f)) [''cluster'', ''PC1'', ''PC2'']
         \<and> (\<forall>i < length (rows f). \<forall>j < length (columns f').
               snd (rows f' ! i) ! j
                 = (if columns f' ! j = ''PC2''
                    then stored (columns f') ''PC2'' (map Num c1) i j
                    else if columns f' ! j = ''PC1''
                    then stored (columns f') ''PC1'' (map Num c0) i j
                    else if columns f' ! j = ''cluster''
                    then stored (columns f') ''cluster'' (map Lbl (labels r)) i j
                    else snd (rows f ! i) ! j))"
proof -
  from clusterer_Inr [OF run] obtain m1 c0 m2 c1 where
    a1: "assign m df ''cluster'' (map Lbl (labels r)) = Inr m1"
    and c0: "column (X_pca r) 0 = Inr c0"
    and a2: "assign m1 df ''PC1'' (map Num c0) = Inr m2"
    and c1: "column (X_pca r) 1 = Inr c1"
    and a3: "assign m2 df ''PC2'' (map Num c1) = Inr (clu_mem r)"
    by blast
  from assign_Inr [OF a1] f obtain f1 where
    s1: "setitem ''cluster'' (map Lbl (labels r)) f = Inr f1" and m1: "m1 = store df f1 m"
    by auto
  from assign_Inr [OF a2] m1 obtain f2 where
    s2: "setitem ''PC1'' (map Num c0) f1 = Inr f2" and m2: "m2 = store df f2 m1"
    by (auto simp: store_def)
  from assign_Inr [OF a3] m2 obtain f3 where
    s3: "setitem ''PC2'' (map Num c1) f2 = Inr f3" and m3: "clu_mem r = store df f3 m2"
    by (auto simp: store_def)
  note e1 = setitem_Inr [OF s1 rect]
  note e2 = setitem_Inr [OF s2 e1(3)]
  note e3 = setitem_Inr [OF s3 e2(3)]
  have len1: "length (rows f1) = length (rows f)" and len2: "length (rows f2) = length (rows f)"
    using e1(1) e2(1) by (metis length_map)+
  have cols2: "columns f2 = columns f @ filter (\<lambda>n. n \<notin> set (columns f)) [''cluster'', ''PC1'']"
    unfolding e2(2) e1(2) by (rule three_columns(1))
  have cols3: "columns f3
      = columns f @ filter (\<lambda>n. n \<notin> set (columns f)) [''cluster'', ''PC1'', ''PC2'']"
    unfolding e3(2) cols2 by (rule three_columns(2))
  have mem: "clu_mem r = m\<lparr>objs := (objs m)(df \<mapsto> f3)\<rparr>"
    by (simp add: m3 m2 m1 store_def)
  have st2: "stored (columns f2) ''PC1'' vals i j = stored (columns f3) ''PC1'' vals i j"
    if "j < length (columns f2)" for vals :: "'a cell list" and i j
    unfolding e3(2) using that by (intro stored_append [symmetric]) auto
  have st1: "stored (columns f1) ''cluster'' vals i j = stored (columns f3) ''cluster'' vals i j"
    if "j < length (columns f1)" for vals :: "'a cell list" and i j
  proof -
    have "columns f3 = columns f1 @ (filter (\<lambda>n. n \<notin> set (columns f1)) [''PC1'']
            @ filter (\<lambda>n. n \<notin> set (columns f2)) [''PC2''])"
      unfolding e3(2) e2(2) by simp
    then show ?thesis
      using that by (simp only:) (intro stored_append [symmetric], auto)
  qed
  have cells: "snd (rows f3 ! i) ! j
                 = (if columns f3 ! j = ''PC2''
                    then stored (columns f3) ''PC2'' (map Num c1) i j
                    else if columns f3 ! j = ''PC1''
                    then stored (columns f3) ''PC1'' (map Num c0) i j
                    else if columns f3 ! j = ''cluster''
                    then stored (columns f3) ''cluster'' (map Lbl (labels r)) i j
                    else snd (rows f ! i) ! j)"
    if i: "i < length (rows f)" and j: "j < length (columns f3)" for i j
  proof -
    have g3: "snd (rows f3 ! i) ! j
        = (if columns f3 ! j = ''PC2'' then stored (columns f3) ''PC2'' (map Num c1) i j
           else snd (rows f2 ! i) ! j)"
      using e3(4) i j len2 by simp
    show ?thesis
    proof (cases "columns f3 ! j = ''PC2''")
      case True
      with g3 show ?thesis by simp
    next
      case n3: False
      have j2: "j < length (columns f2)" and same2: "columns f2 ! j = columns f3 ! j"
        using j n3 unfolding e3(2) by (auto simp: nth_append split: if_splits)
      have g2: "snd (rows f2 ! i) ! j
          = (if columns f2 ! j = ''PC1'' then stored (columns f3) ''PC1'' (map Num c0) i j
             else snd (rows f1 ! i) ! j)"
        using e2(4) i j2 len1 st2 [OF j2] by simp
      show ?thesis
      proof (cases "columns f3 ! j = ''PC1''")
        case True
        with g3 g2 n3 same2 show ?thesis by simp
      next
        case n2: False
        have j1: "j < length (columns f1)" and same1: "columns f1 ! j = columns f3 ! j"
          using j2 n2 same2 unfolding e2(2) by (auto simp: nth_append split: if_splits)
        have g1: "snd (rows f1 ! i) ! j
            = (if columns f1 ! j = ''cluster''
               then stored (columns f3) ''cluster'' (map Lbl (labels r)) i j
               else snd (rows f ! i) ! j)"
          using e1(4) i j1 st1 [OF j1] by simp
        from g3 g2 g1 n3 n2 same2 same1 show ?thesis by simp
      qed
    qed
  qed
  show ?thesis
  proof (intro exI conjI)
    show "column (X_pca r) 0 = Inr c0" by (rule c0)
    show "column (X_pca r) 1 = Inr c1" by (rule c1)
    show "clu_mem r = m\<lparr>objs := (objs m)(df \<mapsto> f3)\<rparr>" by (rule mem)
    show "rectangular f3" by (rule e3(3))
    show "map fst (rows f3) = map fst (rows f)" using e1(1) e2(1) e3(1) by simp
    show "columns f3
      = columns f @ filter (\<lambda>n. n \<notin> set (columns f)) [''cluster'', ''PC1'', ''PC2'']"
      by (rule cols3)
    show "\<forall>i < length (rows f). \<forall>j < length (columns f3).
               snd (rows f3 ! i) ! j
                 = (if columns f3 ! j = ''PC2''
                    then stored (columns f3) ''PC2'' (map Num c1) i j
                    else if columns f3 ! j = ''PC1''
                    then stored (columns f3) ''PC1'' (map Num c0) i j
                    else if columns f3 ! j = ''cluster''
                    then stored (columns f3) ''cluster'' (map Lbl (labels r)) i j
                    else snd (rows f ! i) ! j)"
      using cells by blast
  qed
qed

lemma feature_preparer_Inr:
  assumes "feature_preparer m df0 = Inr (df, Xa, ya, m')"
  shows "\<exists>f0 f X y.
           objs m df0 = Some f0
         \<and> dropna (features @ [''war'']) f0 = Inr f
         \<and> getitem_list features f = Inr X
         \<and> getitem ''war'' f = Inr y
         \<and> df = fresh m \<and> Xa = Suc (fresh m) \<and> ya = Suc (Suc (fresh m))
         \<and> m' = m\<lparr>objs := (objs m)(fresh m \<mapsto> f, Suc (fresh m) \<mapsto> X, Suc (Suc (fresh m)) \<mapsto> y),
                   fresh := Suc (Suc (Suc (fresh m)))\<rparr>"
  using assms
  by (auto simp: feature_preparer_def bnd_Inr_iff deref_def alloc_def split: option.splits)

lemma dropna_Inr:
  assumes "dropna names f = Inr f'"
  shows "columns f' = columns f" and "set (rows f') \<subseteq> set (rows f)"
  using assms by (auto simp: dropna_def bnd_Inr_iff)

lemma dropna_rectangular: "dropna names f = Inr f' \<Longrightarrow> rectangular f \<Longrightarrow> rectangular f'"
  using dropna_Inr [of names f f'] by (auto simp: rectangular_def)






lemma stored_row:
  assumes "length (positions cols name) = 1 \<or> length (positions cols name) \<noteq> length vals"
  shows "stored cols name vals i j = vals ! i"
proof -
  from assms have "\<not> (1 < length (positions cols name)
      \<and> length (positions cols name) = length vals)" by auto
  then show ?thesis unfolding stored_def by (rule if_not_P)
qed

lemma toy_rectangular: "rectangular toy_table"
  by (simp add: rectangular_def toy_rows toy_table_columns upt_rec)







text \<open>
  Claim C8, as amended. After the Feature Preparer, a run of the Clusterer that returns
  changes one object, the table \<open>df\<close>: \<open>X\<close> and every other object are what they were.
  The table keeps its rows and every column not named \<open>cluster\<close>, \<open>PC1\<close> or \<open>PC2\<close>;
  under these three names it holds the labels and the two projection coordinates. A
  name the table did not have is appended as a new column, in this order; a column the
  table already had under one of the names is overwritten. What a cell under one of the
  names holds is what the assignment of pandas stores there: in row \<open>i\<close> value \<open>i\<close> of
  the array, unless the header holds the name more than once and exactly as many times
  as the array has values, in which case the \<open>j\<close>-th column of that name holds value \<open>j\<close>
  in every row.
\<close>

theorem clusterer_sets_three_columns:
  assumes fp: "feature_preparer m0 df0 = Inr (df, Xa, ya, m)"
    and f0: "objs m0 df0 = Some f0" and rect: "rectangular f0"
    and run: "clusterer L amb m df Xa = Inr r"
  shows "objs (clu_mem r) Xa = objs m Xa
       \<and> (\<forall>a. a \<noteq> df \<longrightarrow> objs (clu_mem r) a = objs m a)
       \<and> fresh (clu_mem r) = fresh m
       \<and> (\<exists>f X f' c0 c1.
             objs m df = Some f \<and> objs m Xa = Some X \<and> getitem_list features f = Inr X
           \<and> objs (clu_mem r) df = Some f'
           \<and> column (X_pca r) 0 = Inr c0 \<and> column (X_pca r) 1 = Inr c1
           \<and> map fst (rows f') = map fst (rows f)
           \<and> columns f'
               = columns f @ filter (\<lambda>n. n \<notin> set (columns f)) [''cluster'', ''PC1'', ''PC2'']
           \<and> (\<forall>i < length (rows f). \<forall>j < length (columns f').
                 snd (rows f' ! i) ! j
                   = (if columns f' ! j = ''PC2''
                      then stored (columns f') ''PC2'' (map Num c1) i j
                      else if columns f' ! j = ''PC1''
                      then stored (columns f') ''PC1'' (map Num c0) i j
                      else if columns f' ! j = ''cluster''
                      then stored (columns f') ''cluster'' (map Lbl (labels r)) i j
                      else snd (rows f ! i) ! j)))"
proof -
  from feature_preparer_Inr [OF fp] obtain f0' f X y where
    f0': "objs m0 df0 = Some f0'"
    and d': "dropna (features @ [''war'']) f0' = Inr f"
    and gX: "getitem_list features f = Inr X"
    and a: "df = fresh m0" "Xa = Suc (fresh m0)"
    and m: "m = m0\<lparr>objs := (objs m0)(fresh m0 \<mapsto> f, Suc (fresh m0) \<mapsto> X,
                                     Suc (Suc (fresh m0)) \<mapsto> y),
                  fresh := Suc (Suc (Suc (fresh m0)))\<rparr>"
    by (elim exE conjE)
  from f0 f0' have "f0' = f0" by simp
  with d' have d: "dropna (features @ [''war'']) f0 = Inr f" by simp
  have of: "objs m df = Some f" and oX: "objs m Xa = Some X" and ne: "Xa \<noteq> df"
    by (simp_all add: m a)
  have rf: "rectangular f" by (rule dropna_rectangular [OF d rect])
  from clusterer_frame [OF run of rf] obtain f' c0 c1 where
    c0: "column (X_pca r) 0 = Inr c0" and c1: "column (X_pca r) 1 = Inr c1"
    and mem: "clu_mem r = m\<lparr>objs := (objs m)(df \<mapsto> f')\<rparr>"
    and lf: "map fst (rows f') = map fst (rows f)"
    and cols: "columns f'
        = columns f @ filter (\<lambda>n. n \<notin> set (columns f)) [''cluster'', ''PC1'', ''PC2'']"
    and cells: "\<forall>i < length (rows f). \<forall>j < length (columns f').
                 snd (rows f' ! i) ! j
                   = (if columns f' ! j = ''PC2''
                      then stored (columns f') ''PC2'' (map Num c1) i j
                      else if columns f' ! j = ''PC1''
                      then stored (columns f') ''PC1'' (map Num c0) i j
                      else if columns f' ! j = ''cluster''
                      then stored (columns f') ''cluster'' (map Lbl (labels r)) i j
                      else snd (rows f ! i) ! j)"
    by (elim exE conjE)
  have of': "objs (clu_mem r) df = Some f'" by (simp add: mem)
  have frame: "\<exists>f X f' c0 c1.
             objs m df = Some f \<and> objs m Xa = Some X \<and> getitem_list features f = Inr X
           \<and> objs (clu_mem r) df = Some f'
           \<and> column (X_pca r) 0 = Inr c0 \<and> column (X_pca r) 1 = Inr c1
           \<and> map fst (rows f') = map fst (rows f)
           \<and> columns f'
               = columns f @ filter (\<lambda>n. n \<notin> set (columns f)) [''cluster'', ''PC1'', ''PC2'']
           \<and> (\<forall>i < length (rows f). \<forall>j < length (columns f').
                 snd (rows f' ! i) ! j
                   = (if columns f' ! j = ''PC2''
                      then stored (columns f') ''PC2'' (map Num c1) i j
                      else if columns f' ! j = ''PC1''
                      then stored (columns f') ''PC1'' (map Num c0) i j
                      else if columns f' ! j = ''cluster''
                      then stored (columns f') ''cluster'' (map Lbl (labels r)) i j
                      else snd (rows f ! i) ! j))"
    using of oX gX of' c0 c1 lf cols cells
    by (intro exI [of _ f] exI [of _ X] exI [of _ f'] exI [of _ c0] exI [of _ c1] conjI)
  show ?thesis
  proof (intro conjI)
    show "objs (clu_mem r) Xa = objs m Xa" using ne by (simp add: mem)
    show "\<forall>a. a \<noteq> df \<longrightarrow> objs (clu_mem r) a = objs m a" by (simp add: mem)
    show "fresh (clu_mem r) = fresh m" by (simp add: mem)
  qed (rule frame)
qed

lemma toy_prepare_c:
  "feature_preparer \<lparr>objs = [0 \<mapsto> toy_table_c], fresh = 1\<rparr> 0 = Inr (1, 2, 3, toy_prepared_c)"
  by (simp add: feature_preparer_def toy_prepared_c_def deref_def alloc_def
      dropna_def getitem_def getitem_list_def get_indexer_for_def positions_def
      toy_table_c_def toy_kept_c_def
      toy_table_columns toy_kept_def toy_X_def toy_y_def toy_rows features_def upt_rec
      numeral_2_eq_2 numeral_3_eq_3)

lemma toy_overwrite:
  "map_option columns (objs toy_prepared_c 1)
     = Some [''first'', ''last'', ''on_base_percent'', ''slg_percent'', ''isolated_power'',
             ''k_percent'', ''bb_percent'', ''exit_velocity_avg'', ''sprint_speed'', ''wrcplus'',
             ''f_fielding'', ''spd'', ''war'', ''cluster'']
   \<and> map_sum id (\<lambda>r. map_option columns (objs (clu_mem r) 1))
        (clusterer toy_library id toy_prepared_c 1 2)
     = Inr (Some [''first'', ''last'', ''on_base_percent'', ''slg_percent'', ''isolated_power'',
             ''k_percent'', ''bb_percent'', ''exit_velocity_avg'', ''sprint_speed'', ''wrcplus'',
             ''f_fielding'', ''spd'', ''war'', ''cluster'', ''PC1'', ''PC2''])
   \<and> map_option (\<lambda>f. map (\<lambda>(l, cs). cs ! 13) (rows f)) (objs toy_prepared_c 1)
     = Some [Num 7, Num 7, Num 7, Num 7, Num 7, Num 7, Num 7, Num 7, Num 7, Num 7]
   \<and> map_sum id (\<lambda>r. map_option (\<lambda>f. map (\<lambda>(l, cs). cs ! 13) (rows f)) (objs (clu_mem r) 1))
        (clusterer toy_library id toy_prepared_c 1 2)
     = Inr (Some [Lbl 2, Lbl 3, Lbl 0, Lbl 1, Lbl 2, Lbl 3, Lbl 0, Lbl 1, Lbl 2, Lbl 3])"
  by (simp add: clusterer_def toy_library_def toy_prepared_c_def deref_def toy_seed_def column_def
      assign_def setitem_def store_def toy_table_columns toy_kept_c_def toy_table_c_def
      toy_kept_def toy_rows upt_rec toy_scaled positions_Nil positions_Cons)

text \<open>
  A table that comes with a column \<open>cluster\<close> of its own keeps it through the Feature
  Preparer; it has fourteen columns before the Clusterer and sixteen after it: two
  columns are appended, and the cells the file had under \<open>cluster\<close> are replaced by the
  labels.
\<close>

theorem clusterer_overwrites_cluster_column:
  "feature_preparer \<lparr>objs = [0 \<mapsto> toy_table_c], fresh = 1\<rparr> 0 = Inr (1, 2, 3, toy_prepared_c)
   \<and> map_option columns (objs toy_prepared_c 1)
     = Some [''first'', ''last'', ''on_base_percent'', ''slg_percent'', ''isolated_power'',
             ''k_percent'', ''bb_percent'', ''exit_velocity_avg'', ''sprint_speed'', ''wrcplus'',
             ''f_fielding'', ''spd'', ''war'', ''cluster'']
   \<and> map_sum id (\<lambda>r. map_option columns (objs (clu_mem r) 1))
        (clusterer toy_library id toy_prepared_c 1 2)
     = Inr (Some [''first'', ''last'', ''on_base_percent'', ''slg_percent'', ''isolated_power'',
             ''k_percent'', ''bb_percent'', ''exit_velocity_avg'', ''sprint_speed'', ''wrcplus'',
             ''f_fielding'', ''spd'', ''war'', ''cluster'', ''PC1'', ''PC2''])
   \<and> map_option (\<lambda>f. map (\<lambda>(l, cs). cs ! 13) (rows f)) (objs toy_prepared_c 1)
     = Some [Num 7, Num 7, Num 7, Num 7, Num 7, Num 7, Num 7, Num 7, Num 7, Num 7]
   \<and> map_sum id (\<lambda>r. map_option (\<lambda>f. map (\<lambda>(l, cs). cs ! 13) (rows f)) (objs (clu_mem r) 1))
        (clusterer toy_library id toy_prepared_c 1 2)
     = Inr (Some [Lbl 2, Lbl 3, Lbl 0, Lbl 1, Lbl 2, Lbl 3, Lbl 0, Lbl 1, Lbl 2, Lbl 3])"
  using toy_prepare_c toy_overwrite by (rule conjI)

theorem clusterer_sets_three_columns_witness:
  "feature_preparer toy_loaded 0 = Inr (1, 2, 3, toy_prepared)
   \<and> objs toy_loaded 0 = Some toy_table \<and> rectangular toy_table
   \<and> (\<exists>r. clusterer toy_library (\<lambda>i. i) toy_prepared 1 2 = Inr r
         \<and> labels r = [2, 3, 0, 1, 2, 3, 0, 1, 2, 3]
         \<and> objs (clu_mem r) 2 = objs toy_prepared 2
         \<and> (\<forall>a. a \<noteq> 1 \<longrightarrow> objs (clu_mem r) a = objs toy_prepared a)
         \<and> fresh (clu_mem r) = fresh toy_prepared
         \<and> (\<exists>f X f' c0 c1.
               objs toy_prepared 1 = Some f \<and> objs toy_prepared 2 = Some X
             \<and> getitem_list features f = Inr X
             \<and> objs (clu_mem r) 1 = Some f'
             \<and> column (X_pca r) 0 = Inr c0 \<and> column (X_pca r) 1 = Inr c1
             \<and> map fst (rows f') = map fst (rows f)
             \<and> columns f'
                 = columns f @ filter (\<lambda>n. n \<notin> set (columns f)) [''cluster'', ''PC1'', ''PC2'']
             \<and> (\<forall>i < length (rows f). \<forall>j < length (columns f').
                   snd (rows f' ! i) ! j
                     = (if columns f' ! j = ''PC2''
                        then stored (columns f') ''PC2'' (map Num c1) i j
                        else if columns f' ! j = ''PC1''
                        then stored (columns f') ''PC1'' (map Num c0) i j
                        else if columns f' ! j = ''cluster''
                        then stored (columns f') ''cluster'' (map Lbl (labels r)) i j
                        else snd (rows f ! i) ! j))))"
proof -
  from toy_clustering [of "\<lambda>i. i"] obtain r where
    r1: "clusterer toy_library (\<lambda>i. i) toy_prepared 1 2 = Inr r"
    and r4: "labels r = [2, 3, 0, 1, 2, 3, 0, 1, 2, 3]"
    by (elim exE conjE)
  note t = clusterer_sets_three_columns [OF toy_prepare toy_loaded_table toy_rectangular r1]
  note t1 = conjunct1 [OF t]
  note t2 = conjunct1 [OF conjunct2 [OF t]]
  note t3 = conjunct1 [OF conjunct2 [OF conjunct2 [OF t]]]
  note t4 = conjunct2 [OF conjunct2 [OF conjunct2 [OF t]]]
  show ?thesis
    apply (intro conjI)
       apply (rule toy_prepare)
      apply (rule toy_loaded_table)
     apply (rule toy_rectangular)
    apply (rule exI [of _ r])
    apply (intro conjI)
         apply (rule r1)
        apply (rule r4)
       apply (rule t1)
      apply (rule t2)
     apply (rule t3)
    apply (rule t4)
    done
qed

subsection \<open>The Reporter\<close>

lemma those_map_Some: "those (map g xs) = Some ys \<Longrightarrow> map g xs = map Some ys"
  by (induction xs arbitrary: ys) (auto split: option.splits)

lemma label_of_Some: "label_of c = Some l \<longleftrightarrow> c = Lbl l"
  by (cases c) auto

lemma label_cells:
  assumes "those (map (\<lambda>(l, r). label_of (r ! p)) rs) = Some ls"
  shows "map (\<lambda>(l, r). r ! p) rs = map Lbl ls"
proof -
  from those_map_Some [OF assms]
  have eq: "map (\<lambda>(l, r). label_of (r ! p)) rs = map Some ls" .
  then have len: "length rs = length ls" by (metis length_map)
  show ?thesis
  proof (rule nth_equalityI)
    show "length (map (\<lambda>(l, r). r ! p) rs) = length (map Lbl ls)" using len by simp
  next
    fix i assume "i < length (map (\<lambda>(l, r). r ! p) rs)"
    then have i: "i < length rs" by simp
    from eq have "map (\<lambda>(l, r). label_of (r ! p)) rs ! i = map Some ls ! i" by simp
    with i len have "label_of (snd (rs ! i) ! p) = Some (ls ! i)"
      by (simp add: case_prod_beta)
    then have "snd (rs ! i) ! p = Lbl (ls ! i)" by (simp add: label_of_Some)
    with i len show "map (\<lambda>(l, r). r ! p) rs ! i = map Lbl ls ! i"
      by (simp add: case_prod_beta)
  qed
qed

lemma unique_set: "set (unique xs) = set xs" and unique_distinct: "distinct (unique xs)"
  by (simp_all add: unique_def)

lemma report_loop_Inr:
  assumes "report_loop f p cs = Inr out"
  shows "out = concat (map (\<lambda>c. [PrintCluster c,
                 Display \<lparr>columns = map (\<lambda>i. columns f ! i)
                                      (concat (map (positions (columns f)) report_columns)),
                          rows = take 5 (map (\<lambda>(l, r). (l, map (\<lambda>i. r ! i)
                                      (concat (map (positions (columns f)) report_columns))))
                                   (filter (\<lambda>(l, r). r ! p = Lbl c) (rows f)))\<rparr>]) cs)
       \<and> (cs \<noteq> [] \<longrightarrow> set report_columns \<subseteq> set (columns f))"
  using assms
proof (induction cs arbitrary: out)
  case Nil
  then show ?case by simp
next
  case (Cons c cs)
  from Cons.prems obtain members rest where
    g: "getitem_list report_columns (f\<lparr>rows := filter (\<lambda>(l, r). r ! p = Lbl c) (rows f)\<rparr>)
          = Inr members"
    and r: "report_loop f p cs = Inr rest"
    and o: "out = PrintCluster c # Display (head members) # rest"
    by (auto simp: bnd_Inr_iff)
  from g obtain idx where
    i: "get_indexer_for (columns f) report_columns = Inr idx"
    and mem: "members = \<lparr>columns = map (\<lambda>i. columns f ! i) idx,
                rows = map (\<lambda>(l, cs). (l, map (\<lambda>i. cs ! i) idx))
                         (filter (\<lambda>(l, r). r ! p = Lbl c) (rows f))\<rparr>"
    by (auto simp: getitem_list_def bnd_Inr_iff)
  from get_indexer_for_Inr [OF i] have
    sub: "set report_columns \<subseteq> set (columns f)"
    and idx: "idx = concat (map (positions (columns f)) report_columns)"
    by simp_all
  from Cons.IH [OF r] o mem idx sub show ?case
    by (simp add: head_def take_map)
qed

lemma singleton_list: "distinct xs \<Longrightarrow> set xs = {x} \<Longrightarrow> xs = [x]"
  by (cases xs) (auto simp: subset_singleton_iff split: if_splits)

lemma positions_distinct_header:
  assumes "distinct cols" and "n \<in> set cols"
  shows "map (\<lambda>i. cols ! i) (positions cols n) = [n]"
proof -
  from assms(2) obtain i where i: "i < length cols" "cols ! i = n"
    by (auto simp: in_set_conv_nth)
  have "set (positions cols n) = {i}"
    using i assms(1) by (auto simp: set_positions nth_eq_iff_index_eq)
  moreover have "distinct (positions cols n)" by (simp add: positions_def)
  ultimately have "positions cols n = [i]" by (rule singleton_list [rotated])
  with i show ?thesis by simp
qed

lemma names_distinct_header:
  assumes "distinct cols" and "set names \<subseteq> set cols"
  shows "map (\<lambda>i. cols ! i) (concat (map (positions cols) names)) = names"
  using assms(2)
  by (induction names) (simp_all add: positions_distinct_header [OF assms(1)])

text \<open>
  Claim C9. In every run of the Reporter that returns, the table has one column
  \<open>cluster\<close>, holding a label in each row, and what is printed is, for each cluster id
  in the table, once and in ascending order, a heading with the id followed by the first
  five rows of that cluster (all of them when there are fewer), in the order of the
  table and under their labels, restricted to the columns \<open>first\<close>, \<open>last\<close>,
  \<open>on_base_percent\<close>, \<open>slg_percent\<close>, \<open>wrcplus\<close> and \<open>war\<close>, which the table has when
  there is any cluster to print.
\<close>

theorem reporter_lists_clusters:
  assumes "reporter m df = Inr out"
  shows "\<exists>f p ls ids.
           objs m df = Some f \<and> positions (columns f) ''cluster'' = [p]
         \<and> map (\<lambda>(l, r). r ! p) (rows f) = map Lbl ls
         \<and> sorted ids \<and> distinct ids \<and> set ids = set ls
         \<and> out = concat (map (\<lambda>c. [PrintCluster c,
                 Display \<lparr>columns = map (\<lambda>i. columns f ! i)
                                      (concat (map (positions (columns f)) report_columns)),
                          rows = take 5 (map (\<lambda>(l, r). (l, map (\<lambda>i. r ! i)
                                      (concat (map (positions (columns f)) report_columns))))
                                   (filter (\<lambda>(l, r). r ! p = Lbl c) (rows f)))\<rparr>]) ids)
         \<and> (ids \<noteq> [] \<longrightarrow> set report_columns \<subseteq> set (columns f))
         \<and> (ids \<noteq> [] \<longrightarrow> distinct (columns f) \<longrightarrow>
               map (\<lambda>i. columns f ! i) (concat (map (positions (columns f)) report_columns))
                 = report_columns)"
proof -
  from assms obtain f where f: "objs m df = Some f"
    and rest: "(case positions (columns f) ''cluster'' of
         [] \<Rightarrow> Inl (KeyError [''cluster''])
       | [p] \<Rightarrow> (case those (map (\<lambda>(l, r). label_of (r ! p)) (rows f)) of
                   None \<Rightarrow> Inl TypeError
                 | Some ids \<Rightarrow> report_loop f p (sort (unique ids)))
       | _ \<Rightarrow> Inl AttributeError) = Inr out"
    by (auto simp: reporter_def deref_def bnd_Inr_iff split: option.splits)
  from rest obtain p where p: "positions (columns f) ''cluster'' = [p]"
    by (auto split: list.splits)
  with rest obtain ls where
    ls: "those (map (\<lambda>(l, r). label_of (r ! p)) (rows f)) = Some ls"
    and loop: "report_loop f p (sort (unique ls)) = Inr out"
    by (auto split: option.splits)
  let ?ids = "sort (unique ls)"
  note l = report_loop_Inr [OF loop]
  have names: "map (\<lambda>i. columns f ! i) (concat (map (positions (columns f)) report_columns))
                 = report_columns" if "?ids \<noteq> []" "distinct (columns f)"
    using that l by (intro names_distinct_header) simp_all
  show ?thesis
  proof (rule exI [of _ f], rule exI [of _ p], rule exI [of _ ls], rule exI [of _ ?ids],
      intro conjI)
    show "objs m df = Some f" by (rule f)
    show "positions (columns f) ''cluster'' = [p]" by (rule p)
    show "map (\<lambda>(l, r). r ! p) (rows f) = map Lbl ls" by (rule label_cells [OF ls])
    show "sorted ?ids" by simp
    show "distinct ?ids" by (simp add: unique_distinct)
    show "set ?ids = set ls" by (simp add: unique_set)
    show "out = concat (map (\<lambda>c. [PrintCluster c,
                 Display \<lparr>columns = map (\<lambda>i. columns f ! i)
                                      (concat (map (positions (columns f)) report_columns)),
                          rows = take 5 (map (\<lambda>(l, r). (l, map (\<lambda>i. r ! i)
                                      (concat (map (positions (columns f)) report_columns))))
                                   (filter (\<lambda>(l, r). r ! p = Lbl c) (rows f)))\<rparr>]) ?ids)"
      by (rule conjunct1 [OF l])
    show "?ids \<noteq> [] \<longrightarrow> set report_columns \<subseteq> set (columns f)"
      by (rule conjunct2 [OF l])
    show "?ids \<noteq> [] \<longrightarrow> distinct (columns f) \<longrightarrow>
               map (\<lambda>i. columns f ! i) (concat (map (positions (columns f)) report_columns))
                 = report_columns"
      using names by blast
  qed
qed

lemma toy_reporting: "reporter toy_clustered 0 = Inr toy_report"
  by (simp add: reporter_def deref_def toy_clustered_def toy_report_def
      getitem_list_def get_indexer_for_def positions_Nil positions_Cons report_columns_def
      head_def unique_def)

theorem reporter_lists_clusters_witness:
  "reporter toy_clustered 0 = Inr toy_report
   \<and> (\<exists>f p ls ids.
           objs toy_clustered 0 = Some f \<and> positions (columns f) ''cluster'' = [p]
         \<and> map (\<lambda>(l, r). r ! p) (rows f) = map Lbl ls
         \<and> sorted ids \<and> distinct ids \<and> set ids = set ls
         \<and> toy_report = concat (map (\<lambda>c. [PrintCluster c,
                 Display \<lparr>columns = map (\<lambda>i. columns f ! i)
                                      (concat (map (positions (columns f)) report_columns)),
                          rows = take 5 (map (\<lambda>(l, r). (l, map (\<lambda>i. r ! i)
                                      (concat (map (positions (columns f)) report_columns))))
                                   (filter (\<lambda>(l, r). r ! p = Lbl c) (rows f)))\<rparr>]) ids)
         \<and> (ids \<noteq> [] \<longrightarrow> set report_columns \<subseteq> set (columns f))
         \<and> (ids \<noteq> [] \<longrightarrow> distinct (columns f) \<longrightarrow>
               map (\<lambda>i. columns f ! i) (concat (map (positions (columns f)) report_columns))
                 = report_columns))"
  using toy_reporting reporter_lists_clusters [OF toy_reporting] by (rule conjI)

subsection \<open>The Regressor\<close>

lemma too_few_rows:
  assumes "rejects_too_few_rows L"
  shows "length (rows X) < 2 \<Longrightarrow> train_test_split L g X y (2 / 10) rs = Inl ValueError"
    and "rows X = [] \<Longrightarrow> scaler_fit_transform L X = Inl ValueError"
    and "scaler_fit_transform L X = Inr M \<Longrightarrow> length M = length (rows X)"
    and "length M < 3 \<Longrightarrow> silhouette_score L M l = Inl ValueError"
    and "length (rows X) < 3 \<Longrightarrow> scaler_fit_transform L X = Inl e \<Longrightarrow> e = ValueError"
    and "length M < 3 \<Longrightarrow> pca_fit_transform L g nc rs M = Inl e \<Longrightarrow> e = ValueError"
    and "length M < 3 \<Longrightarrow> kmeans_fit_predict L g k rs M = Inl e \<Longrightarrow> e = ValueError"
  using assms by (simp_all add: rejects_too_few_rows_def)

text \<open>
  Claim C6, as amended. The Regressor passes on the error of the split: it fails with
  the \<open>ValueError\<close> that the library raises for a table of fewer than two rows, and no
  \<open>DataInsufficiencyError\<close> exists. It makes no check of the rank of the feature matrix
  and raises no \<open>DegenerateInputError\<close>: whatever the features are, collinear or not,
  when the library calls return and the coefficients are an array of one dimension (as
  they are for a single target column), the Regressor returns the partition, the fitted
  coefficients and the printed report, one line per pair of column and coefficient.
  When the coefficients are an array of two dimensions (as they are for a target of
  several columns), the formatting of the first line raises \<open>TypeError\<close>.
\<close>

theorem regressor_makes_no_rank_check:
  assumes X: "objs m Xa = Some X" and y: "objs m ya = Some y"
  shows "(\<forall>e. train_test_split L (amb 0) X y (2 / 10) (Some 42) = Inl e \<longrightarrow>
             regressor L amb m Xa ya = Inl e)
       \<and> (rejects_too_few_rows L \<longrightarrow> length (rows X) < 2 \<longrightarrow>
             regressor L amb m Xa ya = Inl ValueError)
       \<and> (\<forall>Xtr Xte ytr yte cf ic yp r2 rmse.
             train_test_split L (amb 0) X y (2 / 10) (Some 42) = Inr (Xtr, Xte, ytr, yte)
           \<and> lr_fit L Xtr ytr = Inr (A1 cf, ic)
           \<and> lr_predict L (A1 cf, ic) Xte = Inr yp
           \<and> r2_score L yte yp = Inr r2
           \<and> mean_squared_error L yte yp False = Inr rmse
           \<longrightarrow> regressor L amb m Xa ya
                 = Inr \<lparr>X_train = Xtr, X_test = Xte, y_train = ytr, y_test = yte,
                        coef = A1 cf, intercept = ic, y_pred = yp,
                        reg_printed = PrintR2 r2 # PrintRMSE rmse # PrintImportances
                          # map (\<lambda>(col, c). PrintCoef col c) (zip (columns X) cf)\<rparr>)
       \<and> (\<forall>Xtr Xte ytr yte rs ic yp r2 rmse.
             train_test_split L (amb 0) X y (2 / 10) (Some 42) = Inr (Xtr, Xte, ytr, yte)
           \<and> lr_fit L Xtr ytr = Inr (A2 rs, ic)
           \<and> lr_predict L (A2 rs, ic) Xte = Inr yp
           \<and> r2_score L yte yp = Inr r2
           \<and> mean_squared_error L yte yp False = Inr rmse
           \<and> columns X \<noteq> [] \<and> rs \<noteq> []
           \<longrightarrow> regressor L amb m Xa ya = Inl TypeError)"
proof (intro conjI allI impI)
  fix e assume "train_test_split L (amb 0) X y (2 / 10) (Some 42) = Inl e"
  then show "regressor L amb m Xa ya = Inl e"
    using X y by (simp add: regressor_def deref_def)
next
  assume "rejects_too_few_rows L" and "length (rows X) < 2"
  then have "train_test_split L (amb 0) X y (2 / 10) (Some 42) = Inl ValueError"
    by (rule too_few_rows(1))
  then show "regressor L amb m Xa ya = Inl ValueError"
    using X y by (simp add: regressor_def deref_def)
next
  fix Xtr Xte ytr yte cf ic yp r2 rmse
  assume "train_test_split L (amb 0) X y (2 / 10) (Some 42) = Inr (Xtr, Xte, ytr, yte)
           \<and> lr_fit L Xtr ytr = Inr (A1 cf, ic)
           \<and> lr_predict L (A1 cf, ic) Xte = Inr yp
           \<and> r2_score L yte yp = Inr r2
           \<and> mean_squared_error L yte yp False = Inr rmse"
  then show "regressor L amb m Xa ya
                 = Inr \<lparr>X_train = Xtr, X_test = Xte, y_train = ytr, y_test = yte,
                        coef = A1 cf, intercept = ic, y_pred = yp,
                        reg_printed = PrintR2 r2 # PrintRMSE rmse # PrintImportances
                          # map (\<lambda>(col, c). PrintCoef col c) (zip (columns X) cf)\<rparr>"
    using X y by (simp add: regressor_def deref_def print_coefs_def)
next
  fix Xtr Xte ytr yte rs ic yp r2 rmse
  assume "train_test_split L (amb 0) X y (2 / 10) (Some 42) = Inr (Xtr, Xte, ytr, yte)
           \<and> lr_fit L Xtr ytr = Inr (A2 rs, ic)
           \<and> lr_predict L (A2 rs, ic) Xte = Inr yp
           \<and> r2_score L yte yp = Inr r2
           \<and> mean_squared_error L yte yp False = Inr rmse
           \<and> columns X \<noteq> [] \<and> rs \<noteq> []"
  then show "regressor L amb m Xa ya = Inl TypeError"
    using X y by (simp add: regressor_def deref_def print_coefs_def)
qed

text \<open>
  On five rows whose ten feature columns are identical the Regressor returns a report
  and raises no \<open>DegenerateInputError\<close>: nothing in the notebook looks at the rank.
\<close>

theorem regressor_accepts_collinear_features:
  "map_option collinear (objs toy_flat 0) = Some True
   \<and> map_sum id reg_printed (regressor toy_library id toy_flat 0 1)
     = Inr [PrintR2 0, PrintRMSE 0, PrintImportances,
            PrintCoef ''on_base_percent'' 0, PrintCoef ''slg_percent'' 0,
            PrintCoef ''isolated_power'' 0, PrintCoef ''k_percent'' 0,
            PrintCoef ''bb_percent'' 0, PrintCoef ''exit_velocity_avg'' 0,
            PrintCoef ''sprint_speed'' 0, PrintCoef ''wrcplus'' 0,
            PrintCoef ''f_fielding'' 0, PrintCoef ''spd'' 0]
   \<and> regressor toy_library id toy_flat 0 1 \<noteq> Inl DegenerateInputError"
  by (simp add: collinear_def toy_flat_def toy_flat_X_def toy_flat_y_def regressor_def deref_def
      toy_library_def toy_split_def toy_seed_def features_def upt_rec print_coefs_def)

lemma toy_rejects_too_few_rows: "rejects_too_few_rows toy_library"
proof -
  have split: "toy_split g X y (1 / 5) rs = Inl ValueError" if "length (rows X) < 2"
    for g X y rs
  proof -
    have c: "\<lceil>1 / 5 :: rat\<rceil> = 1" by (rule ceiling_unique) simp_all
    from that have "length (rows X) = 0 \<or> length (rows X) = 1" by linarith
    then show ?thesis by (auto simp: toy_split_def Let_def c)
  qed
  have sil: "(let c = length (remdups l)
              in if c < 2 \<or> length M \<le> c \<or> length l \<noteq> length M then Inl ValueError
                 else Inr (int (min c 4))) = (Inl ValueError :: error + int)"
    if "length M < 3" for M :: "rat list list" and l :: "nat list"
    using that by (auto simp: Let_def)
  have scaler: "toy_scaler X = Inl ValueError" if "rows X = []" for X
    using that by (simp add: toy_scaler_def)
  have rows: "length M = length (rows X)" if "toy_scaler X = Inr M" for X M
    using that by (auto simp: toy_scaler_def split: if_splits)
  have err: "e = ValueError" if "toy_scaler X = Inl e" for X e
    using that by (auto simp: toy_scaler_def split: if_splits)
  show ?thesis
    unfolding rejects_too_few_rows_def
    apply (intro conjI allI impI)
          apply (simp add: toy_library_def split)
         apply (simp add: toy_library_def scaler)
        apply (simp add: toy_library_def rows)
       apply (simp add: toy_library_def sil)
      apply (simp add: toy_library_def err)
     apply (auto simp: toy_library_def split: if_splits)
    done
qed

theorem regressor_makes_no_rank_check_witness:
  "rejects_too_few_rows toy_library
   \<and> regressor toy_library id toy_one 0 1 = Inl ValueError
   \<and> regressor toy_library id toy_flat 0 1
     = Inr \<lparr>X_train = toy_flat_X\<lparr>rows := take 4 (rows toy_flat_X)\<rparr>,
            X_test = toy_flat_X\<lparr>rows := drop 4 (rows toy_flat_X)\<rparr>,
            y_train = toy_flat_y\<lparr>rows := take 4 (rows toy_flat_y)\<rparr>,
            y_test = toy_flat_y\<lparr>rows := drop 4 (rows toy_flat_y)\<rparr>,
            coef = A1 [0, 0, 0, 0, 0, 0, 0, 0, 0, 0], intercept = [0], y_pred = A1 [0],
            reg_printed = PrintR2 0 # PrintRMSE 0 # PrintImportances
              # map (\<lambda>(col, c). PrintCoef col c)
                  (zip (columns toy_flat_X) [0, 0, 0, 0, 0, 0, 0, 0, 0, 0])\<rparr>
   \<and> regressor toy_library id toy_two_targets 0 1 = Inl TypeError"
proof -
  have X1: "objs toy_one 0 = Some (toy_flat_X\<lparr>rows := take 1 (rows toy_flat_X)\<rparr>)"
    and y1: "objs toy_one 1 = Some (toy_flat_y\<lparr>rows := take 1 (rows toy_flat_y)\<rparr>)"
    by (simp_all add: toy_one_def)
  have few: "length (rows (toy_flat_X\<lparr>rows := take 1 (rows toy_flat_X)\<rparr>)) < 2"
    by simp
  note t1 = regressor_makes_no_rank_check [OF X1 y1, of toy_library id]
  from conjunct1 [OF conjunct2 [OF t1]] toy_rejects_too_few_rows few
  have fails: "regressor toy_library id toy_one 0 1 = Inl ValueError"
    by (elim impE)
  have X: "objs toy_flat 0 = Some toy_flat_X" and y: "objs toy_flat 1 = Some toy_flat_y"
    by (simp_all add: toy_flat_def)
  note t2 = regressor_makes_no_rank_check [OF X y, of toy_library id]
  have calls: "train_test_split toy_library (id 0) toy_flat_X toy_flat_y (2 / 10) (Some 42)
       = Inr (toy_flat_X\<lparr>rows := take 4 (rows toy_flat_X)\<rparr>,
              toy_flat_X\<lparr>rows := drop 4 (rows toy_flat_X)\<rparr>,
              toy_flat_y\<lparr>rows := take 4 (rows toy_flat_y)\<rparr>,
              toy_flat_y\<lparr>rows := drop 4 (rows toy_flat_y)\<rparr>)
     \<and> lr_fit toy_library (toy_flat_X\<lparr>rows := take 4 (rows toy_flat_X)\<rparr>)
         (toy_flat_y\<lparr>rows := take 4 (rows toy_flat_y)\<rparr>)
       = Inr (A1 [0, 0, 0, 0, 0, 0, 0, 0, 0, 0], [0])
     \<and> lr_predict toy_library (A1 [0, 0, 0, 0, 0, 0, 0, 0, 0, 0], [0])
         (toy_flat_X\<lparr>rows := drop 4 (rows toy_flat_X)\<rparr>) = Inr (A1 [0])
     \<and> r2_score toy_library (toy_flat_y\<lparr>rows := drop 4 (rows toy_flat_y)\<rparr>) (A1 [0]) = Inr 0
     \<and> mean_squared_error toy_library (toy_flat_y\<lparr>rows := drop 4 (rows toy_flat_y)\<rparr>)
         (A1 [0]) False = Inr 0"
    by (simp add: toy_library_def toy_split_def toy_seed_def toy_flat_X_def toy_flat_y_def
        features_def upt_rec)
  from conjunct1 [OF conjunct2 [OF conjunct2 [OF t2]]] calls
  have ok: "regressor toy_library id toy_flat 0 1
     = Inr \<lparr>X_train = toy_flat_X\<lparr>rows := take 4 (rows toy_flat_X)\<rparr>,
            X_test = toy_flat_X\<lparr>rows := drop 4 (rows toy_flat_X)\<rparr>,
            y_train = toy_flat_y\<lparr>rows := take 4 (rows toy_flat_y)\<rparr>,
            y_test = toy_flat_y\<lparr>rows := drop 4 (rows toy_flat_y)\<rparr>,
            coef = A1 [0, 0, 0, 0, 0, 0, 0, 0, 0, 0], intercept = [0], y_pred = A1 [0],
            reg_printed = PrintR2 0 # PrintRMSE 0 # PrintImportances
              # map (\<lambda>(col, c). PrintCoef col c)
                  (zip (columns toy_flat_X) [0, 0, 0, 0, 0, 0, 0, 0, 0, 0])\<rparr>"
    by blast
  let ?y2 = "\<lparr>columns = [''war'', ''war''],
              rows = map (\<lambda>i. (i, [Num (of_nat i), Num (of_nat i)])) [0..<5]\<rparr> :: rat frame"
  let ?z = "[0, 0, 0, 0, 0, 0, 0, 0, 0, 0] :: rat list"
  have X2: "objs toy_two_targets 0 = Some toy_flat_X"
    and y2: "objs toy_two_targets 1 = Some ?y2"
    by (simp_all add: toy_two_targets_def)
  note t3 = regressor_makes_no_rank_check [OF X2 y2, of toy_library id]
  have calls2: "train_test_split toy_library (id 0) toy_flat_X ?y2 (2 / 10) (Some 42)
       = Inr (toy_flat_X\<lparr>rows := take 4 (rows toy_flat_X)\<rparr>,
              toy_flat_X\<lparr>rows := drop 4 (rows toy_flat_X)\<rparr>,
              ?y2\<lparr>rows := take 4 (rows ?y2)\<rparr>, ?y2\<lparr>rows := drop 4 (rows ?y2)\<rparr>)
     \<and> lr_fit toy_library (toy_flat_X\<lparr>rows := take 4 (rows toy_flat_X)\<rparr>)
         (?y2\<lparr>rows := take 4 (rows ?y2)\<rparr>)
       = Inr (A2 [?z, ?z], [0, 0])
     \<and> lr_predict toy_library (A2 [?z, ?z], [0, 0])
         (toy_flat_X\<lparr>rows := drop 4 (rows toy_flat_X)\<rparr>) = Inr (A2 [[0, 0]])
     \<and> r2_score toy_library (?y2\<lparr>rows := drop 4 (rows ?y2)\<rparr>) (A2 [[0, 0]]) = Inr 0
     \<and> mean_squared_error toy_library (?y2\<lparr>rows := drop 4 (rows ?y2)\<rparr>) (A2 [[0, 0]]) False
         = Inr 0
     \<and> columns toy_flat_X \<noteq> [] \<and> [?z, ?z] \<noteq> []"
    by (simp add: toy_library_def toy_split_def toy_seed_def toy_flat_X_def
        features_def upt_rec)
  from conjunct2 [OF conjunct2 [OF conjunct2 [OF t3]]] calls2
  have te: "regressor toy_library id toy_two_targets 0 1 = Inl TypeError"
    by blast
  from toy_rejects_too_few_rows fails ok te show ?thesis by (intro conjI)
qed

subsection \<open>Too few rows\<close>














subsection \<open>Two runs\<close>

lemma run_all_Inr:
  assumes "run_all L amb m0 = Inr r"
  shows "\<exists>df0 m1 ya m2.
           loader L m0 = Inr (df0, m1)
         \<and> feature_preparer m1 df0 = Inr (run_df r, run_X r, ya, m2)
         \<and> regressor L amb m2 (run_X r) ya = Inr (run_regression r)
         \<and> clusterer L amb m2 (run_df r) (run_X r) = Inr (run_clustering r)
         \<and> reporter (clu_mem (run_clustering r)) (run_df r) = Inr (run_report r)"
  using assms by (auto simp: run_all_def bnd_Inr_iff)

lemma regressor_Inr:
  assumes "regressor L amb m Xa ya = Inr reg"
  shows "\<exists>X y. objs m Xa = Some X \<and> objs m ya = Some y
           \<and> train_test_split L (amb 0) X y (2 / 10) (Some 42)
               = Inr (X_train reg, X_test reg, y_train reg, y_test reg)"
  using assms
  by (auto simp: regressor_def deref_def bnd_Inr_iff split: option.splits)

text \<open>
  Claim C5. Take two runs of all cells from the same memory against the same library,
  under any two ambient states, and let both return. When a seeded call of the library
  does not depend on the ambient state, the two runs have the same regression result,
  and so the same training and test parts, which are what the split returns for the
  seed 42; and they have the same standardized features, the same scores, the same
  \<open>best_k\<close> and the same label for every row. (The projection is computed without a
  seed and is not part of the statement.)
\<close>

theorem seeded_runs_agree:
  assumes s: "seeded L" and r: "run_all L amb m0 = Inr r" and r': "run_all L amb' m0 = Inr r'"
  shows "run_regression r = run_regression r'
       \<and> (\<exists>X y. train_test_split L (amb 0) X y (2 / 10) (Some 42)
                   = Inr (X_train (run_regression r), X_test (run_regression r),
                          y_train (run_regression r), y_test (run_regression r))
               \<and> train_test_split L (amb' 0) X y (2 / 10) (Some 42)
                   = Inr (X_train (run_regression r'), X_test (run_regression r'),
                          y_train (run_regression r'), y_test (run_regression r')))
       \<and> X_scaled (run_clustering r) = X_scaled (run_clustering r')
       \<and> scores (run_clustering r) = scores (run_clustering r')
       \<and> best_k (run_clustering r) = best_k (run_clustering r')
       \<and> labels (run_clustering r) = labels (run_clustering r')"
proof -
  from run_all_Inr [OF r] obtain df0 m1 ya m2 where
    a: "loader L m0 = Inr (df0, m1)"
      "feature_preparer m1 df0 = Inr (run_df r, run_X r, ya, m2)"
      "regressor L amb m2 (run_X r) ya = Inr (run_regression r)"
      "clusterer L amb m2 (run_df r) (run_X r) = Inr (run_clustering r)"
    by (elim exE conjE)
  from run_all_Inr [OF r'] obtain df0' m1' ya' m2' where
    b: "loader L m0 = Inr (df0', m1')"
      "feature_preparer m1' df0' = Inr (run_df r', run_X r', ya', m2')"
      "regressor L amb' m2' (run_X r') ya' = Inr (run_regression r')"
      "clusterer L amb' m2' (run_df r') (run_X r') = Inr (run_clustering r')"
    by (elim exE conjE)
  from a(1) b(1) have l: "df0' = df0" "m1' = m1" by simp_all
  from a(2) b(2) l have p: "run_df r' = run_df r" "run_X r' = run_X r" "ya' = ya" "m2' = m2"
    by simp_all
  from regressor_seeded [OF s, of amb m2 "run_X r" ya amb'] a(3) b(3) p
  have reg: "run_regression r = run_regression r'" by simp
  from regressor_Inr [OF a(3)] obtain X y where
    x: "objs m2 (run_X r) = Some X" "objs m2 ya = Some y"
    and sp: "train_test_split L (amb 0) X y (2 / 10) (Some 42)
               = Inr (X_train (run_regression r), X_test (run_regression r),
                      y_train (run_regression r), y_test (run_regression r))"
    by (elim exE conjE)
  from regressor_Inr [OF b(3)] x p
  have sp': "train_test_split L (amb' 0) X y (2 / 10) (Some 42)
               = Inr (X_train (run_regression r'), X_test (run_regression r'),
                      y_train (run_regression r'), y_test (run_regression r'))"
    by auto
  from b(4) p have "clusterer L amb' m2 (run_df r) (run_X r) = Inr (run_clustering r')"
    by simp
  from clusterer_seeded [OF s a(4) this] reg sp sp' show ?thesis by blast
qed

lemma those_Some:
  assumes "\<forall>x \<in> set xs. \<exists>y. g x = Some y"
  shows "\<exists>ys. those (map g xs) = Some ys"
  using assms by (induction xs) auto

lemma report_loop_total:
  assumes "set report_columns \<subseteq> set (columns f)"
  shows "\<exists>out. report_loop f p cs = Inr out"
proof (induction cs)
  case Nil
  show ?case by simp
next
  case (Cons c cs)
  then obtain rest where "report_loop f p cs = Inr rest" by blast
  moreover have "\<exists>members. getitem_list report_columns
      (f\<lparr>rows := filter (\<lambda>(l, r). r ! p = Lbl c) (rows f)\<rparr>) = Inr members"
    using get_indexer_for_ok [OF assms] by (simp add: getitem_list_def)
  ultimately show ?case by auto
qed

lemma reporter_total:
  assumes f: "objs m df = Some f"
    and p: "positions (columns f) ''cluster'' = [p]"
    and cells: "\<forall>r \<in> set (rows f). \<exists>c. snd r ! p = Lbl c"
    and cols: "set report_columns \<subseteq> set (columns f)"
  shows "\<exists>out. reporter m df = Inr out"
proof -
  from cells have "\<forall>r \<in> set (rows f). \<exists>c. (\<lambda>(l, r). label_of (r ! p)) r = Some c"
    by (auto simp: case_prod_beta)
  from those_Some [OF this] obtain ids where
    "those (map (\<lambda>(l, r). label_of (r ! p)) (rows f)) = Some ids" by blast
  with f p report_loop_total [OF cols, of p "sort (unique ids)"] show ?thesis
    by (auto simp: reporter_def deref_def)
qed

lemma toy_kept_columns: "columns toy_kept = columns toy_table"
  by (simp add: toy_kept_def)

lemma toy_kept_rectangular: "rectangular toy_kept"
  using toy_rectangular by (auto simp: rectangular_def toy_kept_def)

lemma toy_run: "\<exists>r. run_all toy_library amb empty_mem = Inr r"
proof -
  from toy_regression [of amb] obtain reg where
    reg: "regressor toy_library amb toy_prepared 2 3 = Inr reg" by (elim exE conjE)
  from toy_clustering [of amb] obtain clu where
    clu: "clusterer toy_library amb toy_prepared 1 2 = Inr clu"
    and lab: "labels clu = [2, 3, 0, 1, 2, 3, 0, 1, 2, 3]" by (elim exE conjE)
  have kept: "objs toy_prepared 1 = Some toy_kept" by (simp add: toy_prepared_def)
  from clusterer_frame [OF clu kept toy_kept_rectangular] obtain f' c0 c1 where
    mem: "clu_mem clu = toy_prepared\<lparr>objs := (objs toy_prepared)(1 \<mapsto> f')\<rparr>"
    and lf: "map fst (rows f') = map fst (rows toy_kept)"
    and cols: "columns f' = columns toy_kept
        @ filter (\<lambda>n. n \<notin> set (columns toy_kept)) [''cluster'', ''PC1'', ''PC2'']"
    and cells: "\<forall>i < length (rows toy_kept). \<forall>j < length (columns f').
               snd (rows f' ! i) ! j
                 = (if columns f' ! j = ''PC2''
                    then stored (columns f') ''PC2'' (map Num c1) i j
                    else if columns f' ! j = ''PC1''
                    then stored (columns f') ''PC1'' (map Num c0) i j
                    else if columns f' ! j = ''cluster''
                    then stored (columns f') ''cluster'' (map Lbl (labels clu)) i j
                    else snd (rows toy_kept ! i) ! j)"
    by (elim exE conjE)
  have cols': "columns f' =
     [''first'', ''last'', ''on_base_percent'', ''slg_percent'', ''isolated_power'',
      ''k_percent'', ''bb_percent'', ''exit_velocity_avg'', ''sprint_speed'', ''wrcplus'',
      ''f_fielding'', ''spd'', ''war'', ''cluster'', ''PC1'', ''PC2'']"
    unfolding cols toy_kept_columns toy_table_columns by simp
  have pos: "positions (columns f') ''cluster'' = [13]"
    unfolding cols' by (simp add: positions_Cons positions_Nil)
  have len: "length (rows f') = length (rows toy_kept)"
    using lf by (metis length_map)
  have n: "length (rows toy_kept) = length (labels clu)"
    by (simp add: lab toy_kept_def toy_rows upt_rec)
  have lbl: "\<forall>r \<in> set (rows f'). \<exists>c. snd r ! 13 = Lbl c"
  proof
    fix r assume "r \<in> set (rows f')"
    then obtain i where i: "i < length (rows f')" "r = rows f' ! i"
      by (auto simp: in_set_conv_nth)
    have p: "(13 :: nat) < length (columns f')" "columns f' ! 13 = ''cluster''"
      unfolding cols' by simp_all
    with cells i len
    have "snd r ! 13 = stored (columns f') ''cluster'' (map Lbl (labels clu)) i 13" by simp
    also have "\<dots> = map Lbl (labels clu) ! i"
      by (rule stored_row) (simp add: pos)
    also have "\<dots> = Lbl (labels clu ! i)"
      using i len n by (intro nth_map) simp
    finally show "\<exists>c. snd r ! 13 = Lbl c" by blast
  qed
  have rc: "set report_columns \<subseteq> set (columns f')"
    unfolding cols' by (simp add: report_columns_def)
  have "objs (clu_mem clu) 1 = Some f'" by (simp add: mem)
  from reporter_total [OF this pos lbl rc] obtain out where
    "reporter (clu_mem clu) 1 = Inr out" by blast
  with toy_load toy_prepare reg clu show ?thesis
    by (simp add: run_all_def)
qed

theorem seeded_runs_agree_witness:
  "seeded toy_library
   \<and> (\<exists>r r'. run_all toy_library (\<lambda>i. i) empty_mem = Inr r
         \<and> run_all toy_library (\<lambda>i. i + 7) empty_mem = Inr r'
         \<and> run_regression r = run_regression r'
         \<and> (\<exists>X y. train_test_split toy_library 0 X y (2 / 10) (Some 42)
                   = Inr (X_train (run_regression r), X_test (run_regression r),
                          y_train (run_regression r), y_test (run_regression r))
               \<and> train_test_split toy_library (0 + 7) X y (2 / 10) (Some 42)
                   = Inr (X_train (run_regression r'), X_test (run_regression r'),
                          y_train (run_regression r'), y_test (run_regression r')))
         \<and> X_scaled (run_clustering r) = X_scaled (run_clustering r')
         \<and> scores (run_clustering r) = scores (run_clustering r')
         \<and> best_k (run_clustering r) = best_k (run_clustering r')
         \<and> labels (run_clustering r) = labels (run_clustering r'))"
proof -
  from toy_run [of "\<lambda>i. i"] obtain r where
    r: "run_all toy_library (\<lambda>i. i) empty_mem = Inr r" by (elim exE)
  from toy_run [of "\<lambda>i. i + 7"] obtain r' where
    r': "run_all toy_library (\<lambda>i. i + 7) empty_mem = Inr r'" by (elim exE)
  note t = seeded_runs_agree [OF toy_seeded r r']
  show ?thesis
    apply (rule conjI)
     apply (rule toy_seeded)
    apply (rule exI [of _ r])
    apply (rule exI [of _ r'])
    apply (rule conjI)
     apply (rule r)
    apply (rule conjI)
     apply (rule r')
    apply (rule t)
    done
qed

end
